theory Spec2Isabelle
  imports Complex_Main
begin

section \<open>JavaScript strings\<close>

text \<open>
  Strings are lists of characters. A character stands for one code unit in the Latin-1
  range, so the white space that \<^verbatim>\<open>String.prototype.trim\<close> strips is, inside this
  alphabet, TAB, LF, VT, FF, CR, SPACE and NO-BREAK SPACE; the white space code points
  beyond U+00FF are outside the alphabet of the model.
\<close>

definition isWhiteSpace :: "char \<Rightarrow> bool" where
  "isWhiteSpace c \<longleftrightarrow>
     c \<in> set [CHR 0x09, CHR 0x0A, CHR 0x0B, CHR 0x0C, CHR 0x0D, CHR 0x20, CHR 0xA0]"

definition trim :: "string \<Rightarrow> string" where
  "trim s = rev (dropWhile isWhiteSpace (rev (dropWhile isWhiteSpace s)))"

definition startsWith :: "string \<Rightarrow> string \<Rightarrow> bool" where
  "startsWith s p \<longleftrightarrow> take (length p) s = p"

fun includes_str :: "string \<Rightarrow> string \<Rightarrow> bool" where
  "includes_str [] p = (p = [])"
| "includes_str (c # cs) p = (startsWith (c # cs) p \<or> includes_str cs p)"

definition lowerChar :: "char \<Rightarrow> char" where
  "lowerChar c =
     (let n = (of_char c :: nat)
      in if (65 \<le> n \<and> n \<le> 90) \<or> (192 \<le> n \<and> n \<le> 222 \<and> n \<noteq> 215)
         then char_of (n + 32) else c)"

definition toLowerCase :: "string \<Rightarrow> string" where
  "toLowerCase s = map lowerChar s"

text \<open>A string is truthy when it is not empty.\<close>

abbreviation truthy :: "string \<Rightarrow> bool" where
  "truthy s \<equiv> s \<noteq> []"

section \<open>JavaScript numbers\<close>

text \<open>
  A Number is an IEEE 754 binary64 value. The finite ones are modelled as the real numbers
  they denote, and the sum of two of them as the exact sum rounded to the nearest double,
  ties to the even significand, with the subnormal range included. \<open>binExp a\<close> is the
  binary exponent of a positive \<open>a\<close> (\<open>2 ^ e \<le> a < 2 ^ (e + 1)\<close>), and a double of that
  exponent is a multiple of \<open>2 ^ (e - 52)\<close>, or of \<open>2 ^ (- 1074)\<close> below the normal range.
  Sums beyond the largest double (Infinity) and NaN are outside the model; \<^verbatim>\<open>Math.max\<close>
  of two doubles is exact.
\<close>

definition roundEven :: "real \<Rightarrow> int" where
  "roundEven q =
     (let f = \<lfloor>q\<rfloor>; r = q - of_int f
      in if r < 1 / 2 then f else if 1 / 2 < r then f + 1 else if even f then f else f + 1)"

function bitLength :: "int \<Rightarrow> int" where
  "bitLength n = (if n \<le> 0 then 0 else 1 + bitLength (n div 2))"
  by pat_completeness auto
termination
  by (relation "measure nat") auto

definition binExp :: "real \<Rightarrow> int" where
  "binExp a = (if 1 \<le> a then bitLength \<lfloor>a\<rfloor> - 1 else - bitLength (\<lceil>1 / a\<rceil> - 1))"

definition toDouble :: "real \<Rightarrow> real" where
  "toDouble x =
     (if x = 0 then 0
      else (let u = max (binExp \<bar>x\<bar>) (- 1022) - 52
            in of_int (roundEven (x / 2 powi u)) * 2 powi u))"

definition doubleAdd :: "real \<Rightarrow> real \<Rightarrow> real" where
  "doubleAdd a b = toDouble (a + b)"

section \<open>Data of the hook \<^verbatim>\<open>useGeminiLive\<close>\<close>

datatype ConnectionState = DISCONNECTED | CONNECTING | CONNECTED | ERROR

datatype Sender = user | ai | system

text \<open>
  A log entry also carries \<^verbatim>\<open>timestamp: new Date()\<close>, the wall clock at the moment of
  the append. No operation of the hook reads it back, and it is left out of the record.
\<close>

record LogEntry =
  sender :: Sender
  message :: string

record AIConfig =
  provider :: string
  apiKey :: string
  modelId :: string
  voiceName :: string
  systemInstruction :: string

text \<open>
  A buffer source node created by \<^verbatim>\<open>ctx.createBufferSource()\<close>: its identity, the duration
  of the buffer assigned to it, and whether the platform raises when \<^verbatim>\<open>stop()\<close> is
  called on it.
\<close>

record AudioBufferSourceNode =
  node :: nat
  duration :: real
  stopRaises :: bool

record SpeechSynthesisVoice =
  name :: string
  lang :: string

record SpeechSynthesisUtterance =
  utterText :: string
  pitch :: real
  rate :: real
  voice :: "SpeechSynthesisVoice option"

record request =
  url :: string
  authorization :: string
  model :: string
  messages :: "(string \<times> string) list"
  stream :: bool

text \<open>
  A recognition object made by \<^verbatim>\<open>new SpeechRecognition()\<close> in \<^verbatim>\<open>connectOpenAI\<close>, with
  what its handlers close over: the effective config and the base URL chosen from the key.
\<close>

record recognition =
  recId :: nat
  recConfig :: AIConfig
  baseUrl :: string

text \<open>
  A thrown value, as far as the handlers read it: \<^verbatim>\<open>error.message\<close> (absent is \<open>None\<close>)
  and \<^verbatim>\<open>String(error)\<close>.
\<close>

record js_error =
  errMessage :: "string option"
  errString :: string

text \<open>
  Calls that the hook issues on the handles it owns are recorded in order. A call is recorded
  when it is issued, whether or not the platform raises on it. \<open>TrackStop\<close> on a stream
  stands for \<^verbatim>\<open>getTracks().forEach(track => track.stop())\<close>.
\<close>

datatype call =
    SourceStart AudioBufferSourceNode real
  | SourceStop nat
  | ContextClose nat
  | TrackStop nat
  | ProcessorDisconnect nat
  | RecognitionStart nat
  | RecognitionStop nat

text \<open>
  The state has the React state of the hook (\<open>status\<close>, \<open>logs\<close>, \<open>outputAnalyser\<close>), its
  refs, and the part of the platform it acts on: the calls issued on handles, the utterance
  queue of \<^verbatim>\<open>window.speechSynthesis\<close> (\<^verbatim>\<open>speak\<close> appends, \<^verbatim>\<open>cancel\<close> empties it),
  the completion requests in flight, and the next fresh object identity.
  \<^verbatim>\<open>sourcesRef\<close> is a \<^verbatim>\<open>Set\<close>, iterated in insertion order: a list without repetition.
\<close>

record state =
  status :: ConnectionState
  logs :: "LogEntry list"
  outputAnalyser :: "nat option"
  inputContextRef :: "nat option"
  outputContextRef :: "nat option"
  streamRef :: "nat option"
  processorRef :: "nat option"
  nextStartTimeRef :: real
  sourcesRef :: "AudioBufferSourceNode list"
  activeSessionRef :: "nat option"
  recognitionRef :: "recognition option"
  isProcessingRef :: bool
  currentInputRef :: string
  currentOutputRef :: string
  hasSpeechSynthesis :: bool
  speechQueue :: "SpeechSynthesisUtterance list"
  inflight :: "request list"
  calls :: "call list"
  nextHandle :: nat

text \<open>The hook as first rendered, on a platform with or without speech synthesis.\<close>

definition initial :: "bool \<Rightarrow> state" where
  "initial synth =
     \<lparr> status = DISCONNECTED, logs = [], outputAnalyser = None,
       inputContextRef = None, outputContextRef = None, streamRef = None,
       processorRef = None, nextStartTimeRef = 0, sourcesRef = [],
       activeSessionRef = None, recognitionRef = None, isProcessingRef = False,
       currentInputRef = [], currentOutputRef = [],
       hasSpeechSynthesis = synth, speechQueue = [], inflight = [], calls = [],
       nextHandle = 0 \<rparr>"

definition addLog :: "Sender \<Rightarrow> string \<Rightarrow> state \<Rightarrow> state" where
  "addLog who msg s = s\<lparr>logs := logs s @ [\<lparr>sender = who, message = msg\<rparr>]\<rparr>"

definition setStatus :: "ConnectionState \<Rightarrow> state \<Rightarrow> state" where
  "setStatus c s = s\<lparr>status := c\<rparr>"

definition issue :: "call \<Rightarrow> state \<Rightarrow> state" where
  "issue c s = s\<lparr>calls := calls s @ [c]\<rparr>"

section \<open>Teardown\<close>

text \<open>
  \<^verbatim>\<open>cleanup\<close>: every registered source is stopped inside its own \<^verbatim>\<open>try\<close>, so a raising
  \<^verbatim>\<open>stop()\<close> does not end the loop; the set is cleared; each ref that holds a handle is
  released and set to null (the recognition ref is cleared before \<^verbatim>\<open>rec.stop()\<close>);
  synthesis is cancelled when the platform has it; the session ref, the analyser and the
  status are reset. \<^verbatim>\<open>nextStartTimeRef\<close>, \<^verbatim>\<open>isProcessingRef\<close> and the transcript refs are
  not assigned.
\<close>

definition stopSources :: "state \<Rightarrow> state" where
  "stopSources s =
     s\<lparr>calls := calls s @ map (\<lambda>src. SourceStop (node src)) (sourcesRef s), sourcesRef := []\<rparr>"

definition closeInput :: "state \<Rightarrow> state" where
  "closeInput s =
     (case inputContextRef s of
        None \<Rightarrow> s
      | Some h \<Rightarrow> (issue (ContextClose h) s)\<lparr>inputContextRef := None\<rparr>)"

definition closeOutput :: "state \<Rightarrow> state" where
  "closeOutput s =
     (case outputContextRef s of
        None \<Rightarrow> s
      | Some h \<Rightarrow> (issue (ContextClose h) s)\<lparr>outputContextRef := None\<rparr>)"

definition stopStream :: "state \<Rightarrow> state" where
  "stopStream s =
     (case streamRef s of
        None \<Rightarrow> s
      | Some h \<Rightarrow> (issue (TrackStop h) s)\<lparr>streamRef := None\<rparr>)"

definition disconnectProcessor :: "state \<Rightarrow> state" where
  "disconnectProcessor s =
     (case processorRef s of
        None \<Rightarrow> s
      | Some h \<Rightarrow> (issue (ProcessorDisconnect h) s)\<lparr>processorRef := None\<rparr>)"

definition stopRecognition :: "state \<Rightarrow> state" where
  "stopRecognition s =
     (case recognitionRef s of
        None \<Rightarrow> s
      | Some r \<Rightarrow> issue (RecognitionStop (recId r)) (s\<lparr>recognitionRef := None\<rparr>))"

definition cancelSynthesis :: "state \<Rightarrow> state" where
  "cancelSynthesis s = (if hasSpeechSynthesis s then s\<lparr>speechQueue := []\<rparr> else s)"

definition cleanup :: "state \<Rightarrow> state" where
  "cleanup s =
     setStatus DISCONNECTED
       ((cancelSynthesis
          (stopRecognition
            (disconnectProcessor
              (stopStream
                (closeOutput
                  (closeInput
                    (stopSources s)))))))\<lparr>activeSessionRef := None, outputAnalyser := None\<rparr>)"

definition disconnect :: "state \<Rightarrow> state" where
  "disconnect s = cleanup (addLog system ''Terminating Uplink...'' s)"

section \<open>Live pipeline: the \<^verbatim>\<open>onmessage\<close> callback\<close>

text \<open>
  The fields of a server message that the callback reads, each through optional chaining:
  absent is \<open>None\<close> (or \<open>False\<close> for the two flags).
\<close>

record LiveServerMessage =
  inputTranscription :: "string option"
  outputTranscription :: "string option"
  turnComplete :: bool
  inlineData :: "string option"
  interrupted :: bool

text \<open>
  What the platform answers while one message is handled: the clock of the output context,
  the duration of the buffer that \<^verbatim>\<open>decodeAudioData\<close> returns (\<open>None\<close> when decoding or the
  wiring of the node raises), and whether a later \<^verbatim>\<open>stop()\<close> on the new node raises.
  \<^verbatim>\<open>decodeAudioData\<close> lives in \<^verbatim>\<open>utils/audioUtils\<close>; its result is taken as a parameter.
\<close>

record delivery =
  currentTime :: real
  decoded :: "real option"
  newStopRaises :: bool

definition appendDelta :: "string option \<Rightarrow> string \<Rightarrow> string" where
  "appendDelta d buf = (case d of None \<Rightarrow> buf | Some t \<Rightarrow> if truthy t then buf @ t else buf)"

definition flushTurn :: "state \<Rightarrow> state" where
  "flushTurn s0 =
     (let s1 = (if truthy (trim (currentInputRef s0))
                then (addLog user (trim (currentInputRef s0)) s0)\<lparr>currentInputRef := []\<rparr>
                else s0)
      in if truthy (trim (currentOutputRef s1))
         then (addLog ai (trim (currentOutputRef s1)) s1)\<lparr>currentOutputRef := []\<rparr>
         else s1)"

text \<open>
  The audio branch: the cursor is first moved up to the clock of the output context; after
  the decoding, inside the \<^verbatim>\<open>try\<close>, the source is started at the cursor, the cursor is
  advanced by the duration of the buffer (\<^verbatim>\<open>+=\<close>, a sum of doubles) and the source is
  registered. A raise inside the
  \<^verbatim>\<open>try\<close> is logged to the console and leaves the cursor where the first step put it.
\<close>

definition startSource :: "delivery \<Rightarrow> state \<Rightarrow> state" where
  "startSource env s1 =
     (case decoded env of
        None \<Rightarrow> s1
      | Some d \<Rightarrow>
          (let src = \<lparr>node = nextHandle s1, duration = d, stopRaises = newStopRaises env\<rparr>;
               s2 = issue (SourceStart src (nextStartTimeRef s1))
                      (s1\<lparr>nextHandle := Suc (nextHandle s1)\<rparr>)
           in s2\<lparr>nextStartTimeRef := doubleAdd (nextStartTimeRef s2) (duration src),
                  sourcesRef := sourcesRef s2 @ [src]\<rparr>))"

definition playChunk :: "delivery \<Rightarrow> state \<Rightarrow> state" where
  "playChunk env s0 =
     startSource env (s0\<lparr>nextStartTimeRef := max (nextStartTimeRef s0) (currentTime env)\<rparr>)"

text \<open>
  The interruption branch stops the sources with a bare \<^verbatim>\<open>forEach(src => src.stop())\<close>:
  the first raising \<^verbatim>\<open>stop()\<close> ends the loop and the callback, before the set is cleared
  and the cursor reset.
\<close>

fun stopUntilRaise :: "AudioBufferSourceNode list \<Rightarrow> call list \<times> bool" where
  "stopUntilRaise [] = ([], True)"
| "stopUntilRaise (src # rest) =
     (if stopRaises src then ([SourceStop (node src)], False)
      else (let (cs, fin) = stopUntilRaise rest in (SourceStop (node src) # cs, fin)))"

definition onInterrupted :: "state \<Rightarrow> state" where
  "onInterrupted s0 =
     (let s1 = addLog system ''Interruption detected.'' s0;
          s2 = (if truthy (trim (currentOutputRef s1))
                then (addLog ai (trim (currentOutputRef s1) @ '' -- [INTERRUPTED]'') s1)
                       \<lparr>currentOutputRef := []\<rparr>
                else s1);
          (cs, fin) = stopUntilRaise (sourcesRef s2);
          s3 = s2\<lparr>calls := calls s2 @ cs\<rparr>
      in if fin then s3\<lparr>sourcesRef := [], nextStartTimeRef := 0\<rparr> else s3)"

text \<open>
  The callback is \<^verbatim>\<open>async\<close> with one \<^verbatim>\<open>await\<close> (the decoding). \<open>onmessage\<close> is the
  callback run to its end before the next message is handled; \<open>beginMessage\<close> and
  \<open>resumeMessage\<close> further down are its two parts, before and after the \<^verbatim>\<open>await\<close>.
\<close>

definition onmessage :: "delivery \<Rightarrow> LiveServerMessage \<Rightarrow> state \<Rightarrow> state" where
  "onmessage env m s0 =
     (let s1 = s0\<lparr>currentInputRef := appendDelta (inputTranscription m) (currentInputRef s0)\<rparr>;
          s2 = s1\<lparr>currentOutputRef := appendDelta (outputTranscription m) (currentOutputRef s1)\<rparr>;
          s3 = (if turnComplete m then flushTurn s2 else s2);
          s4 = (case inlineData m of
                  None \<Rightarrow> s3
                | Some b \<Rightarrow> if truthy b \<and> outputContextRef s3 \<noteq> None then playChunk env s3 else s3)
      in if interrupted m then onInterrupted s4 else s4)"

text \<open>\<^verbatim>\<open>source.onended\<close>: the node that has finished removes itself from the set.\<close>

definition source_onended :: "nat \<Rightarrow> state \<Rightarrow> state" where
  "source_onended n s = s\<lparr>sourcesRef := filter (\<lambda>src. node src \<noteq> n) (sourcesRef s)\<rparr>"

fun deliver :: "(delivery \<times> LiveServerMessage) list \<Rightarrow> state \<Rightarrow> state" where
  "deliver [] s = s"
| "deliver ((env, m) # rest) s = deliver rest (onmessage env m s)"

text \<open>The chunks started so far, in order: start time and buffer duration.\<close>

fun chunks :: "call list \<Rightarrow> (real \<times> real) list" where
  "chunks [] = []"
| "chunks (SourceStart src t # cs) = (t, duration src) # chunks cs"
| "chunks (_ # cs) = chunks cs"

section \<open>Live pipeline: setup and session callbacks\<close>

text \<open>
  Where the \<^verbatim>\<open>try\<close> block of \<^verbatim>\<open>connectGemini\<close> raises, if it does: at the constructor of
  the input or of the output context, at the awaited \<^verbatim>\<open>getUserMedia\<close>, or at
  \<^verbatim>\<open>new GoogleGenAI\<close> / the call of \<^verbatim>\<open>ai.live.connect\<close>. The promise that
  \<^verbatim>\<open>ai.live.connect\<close> returns is not awaited, so its later rejection does not reach the
  \<^verbatim>\<open>catch\<close> block and is no case here.
\<close>

datatype gemini_setup =
    FailInputContext js_error
  | FailOutputContext js_error
  | FailGetUserMedia js_error
  | FailSession js_error
  | GeminiReady

definition fresh :: "state \<Rightarrow> state" where
  "fresh s = s\<lparr>nextHandle := Suc (nextHandle s)\<rparr>"

definition geminiBegin :: "AIConfig \<Rightarrow> state \<Rightarrow> state" where
  "geminiBegin config s =
     addLog system (''Initializing JAMES audio interface ('' @ modelId config @ '')...'')
       (setStatus CONNECTING s)"

definition newInputContext :: "state \<Rightarrow> state" where
  "newInputContext s = fresh (s\<lparr>inputContextRef := Some (nextHandle s)\<rparr>)"

definition newOutputContext :: "state \<Rightarrow> state" where
  "newOutputContext s0 =
     (let s1 = fresh (s0\<lparr>outputContextRef := Some (nextHandle s0)\<rparr>);
          s2 = fresh (s1\<lparr>outputAnalyser := Some (nextHandle s1)\<rparr>)
      in addLog system ''Accessing microphone feed...'' s2)"

definition gotUserMedia :: "state \<Rightarrow> state" where
  "gotUserMedia s = fresh (s\<lparr>streamRef := Some (nextHandle s)\<rparr>)"

definition sessionRequested :: "state \<Rightarrow> state" where
  "sessionRequested s = fresh (s\<lparr>activeSessionRef := Some (nextHandle s)\<rparr>)"

definition errorText :: "js_error \<Rightarrow> string" where
  "errorText e =
     (case errMessage e of
        Some m \<Rightarrow> if truthy m then m else errString e
      | None \<Rightarrow> errString e)"

definition geminiCatch :: "js_error \<Rightarrow> state \<Rightarrow> state" where
  "geminiCatch e s0 =
     (let errorMessage = errorText e;
          s1 = (if includes_str errorMessage ''service is currently unavailable''
                then addLog system
                  (''Error: Service Unavailable. The model server is currently overloaded '' @
                   ''or experiencing downtime. Please try again later.'') s0
                else addLog system (''Init Error: '' @ errorMessage) s0);
          s2 = setStatus ERROR s1
      in cleanup s2)"

fun connectGemini :: "AIConfig \<Rightarrow> gemini_setup \<Rightarrow> state \<Rightarrow> state" where
  "connectGemini config (FailInputContext e) s = geminiCatch e (geminiBegin config s)"
| "connectGemini config (FailOutputContext e) s =
     geminiCatch e (newInputContext (geminiBegin config s))"
| "connectGemini config (FailGetUserMedia e) s =
     geminiCatch e (newOutputContext (newInputContext (geminiBegin config s)))"
| "connectGemini config (FailSession e) s =
     geminiCatch e (gotUserMedia (newOutputContext (newInputContext (geminiBegin config s))))"
| "connectGemini config GeminiReady s =
     sessionRequested
       (gotUserMedia (newOutputContext (newInputContext (geminiBegin config s))))"

definition onopen :: "state \<Rightarrow> state" where
  "onopen s0 =
     (let s1 = setStatus CONNECTED (addLog system ''Uplink established. James is online.'' s0);
          s2 = s1\<lparr>currentInputRef := [], currentOutputRef := []\<rparr>
      in if inputContextRef s2 = None \<or> streamRef s2 = None then s2
         else fresh (s2\<lparr>processorRef := Some (nextHandle s2)\<rparr>))"

definition onclose :: "state \<Rightarrow> state" where
  "onclose s = setStatus DISCONNECTED (addLog system ''Connection closed.'' s)"

definition onerror :: "string \<Rightarrow> state \<Rightarrow> state" where
  "onerror msg s = setStatus ERROR (addLog system (''System Error: '' @ msg) s)"

section \<open>Turn-based pipeline\<close>

subsection \<open>Voice selection\<close>

text \<open>The four tests of the cascade, in the order the source tries them.\<close>

definition isDaniel :: "SpeechSynthesisVoice \<Rightarrow> bool" where
  "isDaniel v \<longleftrightarrow> includes_str (name v) ''Microsoft Daniel'' \<and> includes_str (lang v) ''pt''"

definition isPortugueseMale :: "SpeechSynthesisVoice \<Rightarrow> bool" where
  "isPortugueseMale v \<longleftrightarrow>
     includes_str (lang v) ''pt'' \<and>
     (includes_str (toLowerCase (name v)) ''male'' \<or>
      includes_str (toLowerCase (name v)) ''masculino'')"

definition isPtBR :: "SpeechSynthesisVoice \<Rightarrow> bool" where
  "isPtBR v \<longleftrightarrow> lang v = ''pt-BR''"

definition isPortuguese :: "SpeechSynthesisVoice \<Rightarrow> bool" where
  "isPortuguese v \<longleftrightarrow> includes_str (lang v) ''pt''"

definition selectVoice :: "SpeechSynthesisVoice list \<Rightarrow> SpeechSynthesisVoice option" where
  "selectVoice voices =
     (let sel1 = find isDaniel voices;
          sel2 = (if sel1 = None then find isPortugueseMale voices else sel1);
          sel3 = (if sel2 = None then find isPtBR voices else sel2);
          sel4 = (if sel3 = None then find isPortuguese voices else sel3)
      in sel4)"

text \<open>
  The utterance of a reply: fixed pitch and rate; \<^verbatim>\<open>utterance.voice\<close> is assigned only when
  a voice was selected, and stays unset (\<open>None\<close>, the engine's default) otherwise.
\<close>

definition mkUtterance :: "string \<Rightarrow> SpeechSynthesisVoice list \<Rightarrow> SpeechSynthesisUtterance" where
  "mkUtterance aiText voices =
     \<lparr>utterText = aiText, pitch = 1, rate = 11 / 10, voice = selectVoice voices\<rparr>"

subsection \<open>Recognition handlers\<close>

record SpeechRecognitionResult =
  alternatives :: "string list"
  isFinal :: bool

definition rec_onstart :: "state \<Rightarrow> state" where
  "rec_onstart s = addLog system ''James Online. Listening...'' (setStatus CONNECTED s)"

definition rec_onerror :: "string \<Rightarrow> state \<Rightarrow> state" where
  "rec_onerror err s =
     (if err = ''no-speech'' \<or> err = ''aborted'' then s
      else if err = ''not-allowed''
           then setStatus ERROR (addLog system ''Error: Microphone access denied.'' s)
           else s)"

definition rec_onend :: "recognition \<Rightarrow> state \<Rightarrow> state" where
  "rec_onend r s =
     (if recognitionRef s = Some r \<and> \<not> isProcessingRef s
      then issue (RecognitionStart (recId r)) s else s)"

definition completionRequest :: "recognition \<Rightarrow> string \<Rightarrow> request" where
  "completionRequest r text =
     \<lparr>url = baseUrl r @ ''/chat/completions'',
      authorization = ''Bearer '' @ apiKey (recConfig r),
      model = modelId (recConfig r),
      messages = [(''system'', systemInstruction (recConfig r)), (''user'', text)],
      stream = False\<rparr>"

text \<open>
  \<^verbatim>\<open>onresult\<close> up to its first \<^verbatim>\<open>await\<close>. Reading
  \<^verbatim>\<open>event.results[length - 1][0].transcript\<close> of an event without results, or of a result
  without alternatives, raises before anything is assigned: the state is as it was.
\<close>

definition rec_onresult :: "recognition \<Rightarrow> SpeechRecognitionResult list \<Rightarrow> state \<Rightarrow> state" where
  "rec_onresult r results s0 =
     (if isProcessingRef s0 then s0
      else if results = [] then s0
      else case alternatives (last results) of
             [] \<Rightarrow> s0
           | text # _ \<Rightarrow>
               if isFinal (last results) \<and> length (trim text) > 0
               then (let s1 = addLog user text s0;
                         s2 = s1\<lparr>isProcessingRef := True\<rparr>;
                         s3 = issue (RecognitionStop (recId r)) s2
                     in s3\<lparr>inflight := inflight s3 @ [completionRequest r text]\<rparr>)
               else s0)"

text \<open>
  How a completion request settles. \<open>Rejected\<close>: \<^verbatim>\<open>fetch\<close> rejects. Otherwise the response
  is ok or not, and its body is either unreadable (\<^verbatim>\<open>response.json()\<close> rejects, or reading
  the field off the parsed value raises) or gives the field read off it:
  \<^verbatim>\<open>err.error?.message\<close> of a failure, \<^verbatim>\<open>data.choices?.[0]?.message?.content\<close> of a
  success, \<open>None\<close> when absent. Fields that are not strings are outside the model.
\<close>

datatype body = Unreadable js_error | Field "string option"

datatype completion = Rejected js_error | Failure body | Success body

definition templated :: "string option \<Rightarrow> string" where
  "templated m = (case m of None \<Rightarrow> ''undefined'' | Some t \<Rightarrow> t)"

definition llmCatch :: "recognition \<Rightarrow> string \<Rightarrow> state \<Rightarrow> state" where
  "llmCatch r msg s =
     issue (RecognitionStart (recId r))
       ((addLog system (''LLM Error: '' @ msg) s)\<lparr>isProcessingRef := False\<rparr>)"

definition resume :: "recognition \<Rightarrow> state \<Rightarrow> state" where
  "resume r s = issue (RecognitionStart (recId r)) (s\<lparr>isProcessingRef := False\<rparr>)"

fun settled :: "recognition \<Rightarrow> completion \<Rightarrow> SpeechSynthesisVoice list \<Rightarrow> state \<Rightarrow> state" where
  "settled r (Rejected e) voices s = llmCatch r (templated (errMessage e)) s"
| "settled r (Failure (Unreadable e)) voices s = llmCatch r (templated (errMessage e)) s"
| "settled r (Failure (Field m)) voices s =
     llmCatch r (case m of Some t \<Rightarrow> if truthy t then t else ''API Request Failed''
                         | None \<Rightarrow> ''API Request Failed'') s"
| "settled r (Success (Unreadable e)) voices s = llmCatch r (templated (errMessage e)) s"
| "settled r (Success (Field c)) voices s0 =
     (let aiText = (case c of Some t \<Rightarrow> t | None \<Rightarrow> []);
          s1 = addLog ai aiText s0
      in if truthy aiText \<and> hasSpeechSynthesis s1
         then s1\<lparr>speechQueue := speechQueue s1 @ [mkUtterance aiText voices]\<rparr>
         else resume r s1)"

text \<open>\<^verbatim>\<open>utterance.onend\<close> and \<^verbatim>\<open>utterance.onerror\<close> do the same.\<close>

definition utterance_onend :: "recognition \<Rightarrow> state \<Rightarrow> state" where
  "utterance_onend r s = resume r s"

definition utterance_onerror :: "recognition \<Rightarrow> state \<Rightarrow> state" where
  "utterance_onerror r s = resume r s"

subsection \<open>Setup\<close>

text \<open>
  Where the \<^verbatim>\<open>try\<close> block of \<^verbatim>\<open>connectOpenAI\<close> raises, if it does, and whether the
  window has a recognition constructor at all.
\<close>

datatype openai_setup =
    NoSpeechRecognition
  | FailRecognitionCtor js_error
  | FailRecognitionStart js_error
  | FailAudioContext js_error
  | OpenAIReady

definition mkRecognition :: "AIConfig \<Rightarrow> nat \<Rightarrow> recognition" where
  "mkRecognition config n =
     \<lparr>recId = n, recConfig = config,
      baseUrl = (if startsWith (apiKey config) ''gsk_''
                 then ''https://api.groq.com/openai/v1'' else ''https://api.openai.com/v1'')\<rparr>"

definition openaiBegin :: "AIConfig \<Rightarrow> state \<Rightarrow> state" where
  "openaiBegin config s =
     addLog system
       (''Initializing adapter for '' @
        (if startsWith (apiKey config) ''gsk_'' then ''Groq'' else ''OpenAI'') @
        '' ('' @ modelId config @ '')...'')
       (setStatus CONNECTING s)"

definition openaiCatch :: "js_error \<Rightarrow> state \<Rightarrow> state" where
  "openaiCatch e s =
     setStatus ERROR (addLog system (''Init Error: '' @ templated (errMessage e)) s)"

definition recognitionStarted :: "AIConfig \<Rightarrow> state \<Rightarrow> state" where
  "recognitionStarted config s0 =
     (let r = mkRecognition config (nextHandle s0);
          s1 = fresh (s0\<lparr>recognitionRef := Some r\<rparr>)
      in issue (RecognitionStart (recId r)) s1)"

text \<open>
  Without \<^verbatim>\<open>window.speechSynthesis\<close> the read of \<^verbatim>\<open>getVoices()\<close>, which is before the
  \<^verbatim>\<open>try\<close>, raises and the function ends there.
\<close>

definition connectOpenAI :: "AIConfig \<Rightarrow> openai_setup \<Rightarrow> state \<Rightarrow> state" where
  "connectOpenAI config setup s0 =
     (if setup = NoSpeechRecognition
      then setStatus ERROR
             (addLog system
               (''Error: Browser does not support Web Speech API required for '' @
                ''non-Gemini providers.'') s0)
      else
        (let s1 = openaiBegin config s0
         in if \<not> hasSpeechSynthesis s1 then s1
            else case setup of
                   FailRecognitionCtor e \<Rightarrow> openaiCatch e s1
                 | FailRecognitionStart e \<Rightarrow> openaiCatch e (recognitionStarted config s1)
                 | FailAudioContext e \<Rightarrow> openaiCatch e (recognitionStarted config s1)
                 | _ \<Rightarrow> (let s2 = fresh (recognitionStarted config s1)
                         in fresh (s2\<lparr>outputAnalyser := Some (nextHandle s2)\<rparr>))))"

section \<open>Entry points\<close>

text \<open>
  \<^verbatim>\<open>connect\<close> resolves the key as \<^verbatim>\<open>config.apiKey || process.env.API_KEY\<close>; the second
  argument is the environment variable, \<open>None\<close> when it is not set.
\<close>

definition resolveKey :: "AIConfig \<Rightarrow> string option \<Rightarrow> string option" where
  "resolveKey config envKey = (if truthy (apiKey config) then Some (apiKey config) else envKey)"

definition keyMissing :: "state \<Rightarrow> state" where
  "keyMissing s =
     setStatus ERROR
       (addLog system
         (''Critical Error: API Key missing. Please ensure your API_KEY environment '' @
          ''variable is set.'') s)"

definition connect ::
  "AIConfig \<Rightarrow> string option \<Rightarrow> gemini_setup \<Rightarrow> openai_setup \<Rightarrow> state \<Rightarrow> state" where
  "connect config envKey gs os s =
     (case resolveKey config envKey of
        None \<Rightarrow> keyMissing s
      | Some k \<Rightarrow>
          if \<not> truthy k then keyMissing s
          else (let effectiveConfig = config\<lparr>apiKey := k\<rparr>
                in if provider config = ''gemini''
                   then connectGemini effectiveConfig gs s
                   else connectOpenAI effectiveConfig os s))"

section \<open>Properties stated about the model\<close>

text \<open>
  A list of started chunks is back to back when each one starts no earlier than the start
  of the one before it plus that one's duration, the sum taken exactly. It is chained when
  each one starts no earlier than the double sum of the start and the duration of the one
  before it, which is the value the program leaves in the cursor.
\<close>

definition backToBack :: "(real \<times> real) list \<Rightarrow> bool" where
  "backToBack cs \<longleftrightarrow> successively (\<lambda>(t1, d1) (t2, d2). t1 + d1 \<le> t2) cs"

definition chained :: "(real \<times> real) list \<Rightarrow> bool" where
  "chained cs \<longleftrightarrow> successively (\<lambda>(t1, d1) (t2, d2). doubleAdd t1 d1 \<le> t2) cs"

text \<open>The chunks that have been started between a state and a later one.\<close>

definition startedSince :: "state \<Rightarrow> state \<Rightarrow> (real \<times> real) list" where
  "startedSince s t = drop (length (chunks (calls s))) (chunks (calls t))"

text \<open>
  The invariant of a run that began with the chunks \<open>c0\<close> already started: these still
  come first, the chunks after them are chained, and the cursor is no earlier than the
  double sum of the start and the duration of the last of those.
\<close>

definition runInv :: "(real \<times> real) list \<Rightarrow> state \<Rightarrow> bool" where
  "runInv c0 t \<longleftrightarrow>
     take (length c0) (chunks (calls t)) = c0 \<and>
     chained (drop (length c0) (chunks (calls t))) \<and>
     (drop (length c0) (chunks (calls t)) \<noteq> [] \<longrightarrow>
        doubleAdd (fst (last (chunks (calls t)))) (snd (last (chunks (calls t))))
          \<le> nextStartTimeRef t)"

text \<open>
  The events of the turn-based pipeline between setup and teardown. A request settles only
  while it is in flight, and then leaves the requests in flight; an utterance ends (or
  fails) only while it is queued, and then leaves the queue.
\<close>

datatype turn_event =
    RecStart
  | RecError string
  | RecEnd recognition
  | RecResult recognition "SpeechRecognitionResult list"
  | Settled recognition request completion "SpeechSynthesisVoice list"
  | UtteranceEnd recognition
  | UtteranceError recognition

fun fire :: "turn_event \<Rightarrow> state \<Rightarrow> state option" where
  "fire RecStart s = Some (rec_onstart s)"
| "fire (RecError err) s = Some (rec_onerror err s)"
| "fire (RecEnd r) s = Some (rec_onend r s)"
| "fire (RecResult r results) s = Some (rec_onresult r results s)"
| "fire (Settled r q c voices) s =
     (if q \<in> set (inflight s)
      then Some (settled r c voices (s\<lparr>inflight := remove1 q (inflight s)\<rparr>))
      else None)"
| "fire (UtteranceEnd r) s =
     (case speechQueue s of
        [] \<Rightarrow> None
      | _ # us \<Rightarrow> Some (utterance_onend r (s\<lparr>speechQueue := us\<rparr>)))"
| "fire (UtteranceError r) s =
     (case speechQueue s of
        [] \<Rightarrow> None
      | _ # us \<Rightarrow> Some (utterance_onerror r (s\<lparr>speechQueue := us\<rparr>)))"

fun fireAll :: "turn_event list \<Rightarrow> state \<Rightarrow> state option" where
  "fireAll [] s = Some s"
| "fireAll (e # es) s = (case fire e s of None \<Rightarrow> None | Some s' \<Rightarrow> fireAll es s')"

text \<open>
  Outstanding work of the turn-based pipeline: requests in flight and utterances queued.
  It is exclusive when there is at most one piece of it, and none unless the processing flag
  is set.
\<close>

definition exclusive :: "state \<Rightarrow> bool" where
  "exclusive s \<longleftrightarrow>
     length (inflight s) + length (speechQueue s) \<le> (if isProcessingRef s then 1 else 0)"

text \<open>
  The text that a run of messages delivers for each transcript, and the log entries that a
  flush of an accumulated text gives.
\<close>

definition deltaText :: "string option \<Rightarrow> string" where
  "deltaText d = (case d of None \<Rightarrow> [] | Some t \<Rightarrow> t)"

definition inputText :: "(delivery \<times> LiveServerMessage) list \<Rightarrow> string" where
  "inputText evs = concat (map (\<lambda>(env, m). deltaText (inputTranscription m)) evs)"

definition outputText :: "(delivery \<times> LiveServerMessage) list \<Rightarrow> string" where
  "outputText evs = concat (map (\<lambda>(env, m). deltaText (outputTranscription m)) evs)"

definition flushed :: "Sender \<Rightarrow> string \<Rightarrow> LogEntry list" where
  "flushed who acc = (if truthy (trim acc) then [\<lparr>sender = who, message = trim acc\<rparr>] else [])"

definition afterFlush :: "string \<Rightarrow> string" where
  "afterFlush acc = (if truthy (trim acc) then [] else acc)"

text \<open>
  The part of \<open>onmessage\<close> before the audio payload is looked at: the deltas are
  appended and, on a turn-complete signal, the buffers flushed.
\<close>

definition transcriptPart :: "LiveServerMessage \<Rightarrow> state \<Rightarrow> state" where
  "transcriptPart m s =
     (if turnComplete m then flushTurn else (\<lambda>s. s))
       (s\<lparr>currentInputRef := appendDelta (inputTranscription m) (currentInputRef s),
          currentOutputRef := appendDelta (outputTranscription m) (currentOutputRef s)\<rparr>)"

text \<open>
  The callback split at its \<^verbatim>\<open>await\<close>. \<open>beginMessage\<close> is the part that runs when the
  message arrives: the transcript part and, when there is audio and an output context, the
  assignment of \<open>max cursor currentTime\<close> to the cursor. \<open>resumeMessage\<close> is the part
  after the decoding: with audio, the start of the source at the cursor as it is by then;
  then the interruption branch. Between the two, parts of other messages may run.
\<close>

definition hasAudio :: "LiveServerMessage \<Rightarrow> state \<Rightarrow> bool" where
  "hasAudio m s \<longleftrightarrow>
     (case inlineData m of None \<Rightarrow> False | Some b \<Rightarrow> truthy b) \<and> outputContextRef s \<noteq> None"

definition beginMessage :: "delivery \<Rightarrow> LiveServerMessage \<Rightarrow> state \<Rightarrow> state" where
  "beginMessage env m s0 =
     (let s3 = transcriptPart m s0
      in if hasAudio m s3
         then s3\<lparr>nextStartTimeRef := max (nextStartTimeRef s3) (currentTime env)\<rparr>
         else s3)"

definition resumeMessage :: "delivery \<Rightarrow> LiveServerMessage \<Rightarrow> bool \<Rightarrow> state \<Rightarrow> state" where
  "resumeMessage env m audio s =
     (let s4 = (if audio then startSource env s else s)
      in if interrupted m then onInterrupted s4 else s4)"

datatype part =
    Begin delivery LiveServerMessage
  | Resume delivery LiveServerMessage bool

fun runPart :: "part \<Rightarrow> state \<Rightarrow> state" where
  "runPart (Begin env m) s = beginMessage env m s"
| "runPart (Resume env m audio) s = resumeMessage env m audio s"

fun partInterrupted :: "part \<Rightarrow> bool" where
  "partInterrupted (Begin env m) = interrupted m"
| "partInterrupted (Resume env m audio) = interrupted m"

text \<open>
  The message of the error that a failed completion raises, case by case: the message of
  the thrown value when \<^verbatim>\<open>fetch\<close> rejects or a body cannot be read (\<open>undefined\<close> in
  the template when the value has none), the upstream \<^verbatim>\<open>error.message\<close> of a response
  that is not ok when it has one that is not empty, and \<open>API Request Failed\<close> when it has
  none. A readable ok response is no failure.
\<close>

fun failureMessage :: "completion \<Rightarrow> string" where
  "failureMessage (Rejected e) = (case errMessage e of Some m \<Rightarrow> m | None \<Rightarrow> ''undefined'')"
| "failureMessage (Failure (Unreadable e)) =
     (case errMessage e of Some m \<Rightarrow> m | None \<Rightarrow> ''undefined'')"
| "failureMessage (Failure (Field (Some m))) = (if truthy m then m else ''API Request Failed'')"
| "failureMessage (Failure (Field None)) = ''API Request Failed''"
| "failureMessage (Success (Unreadable e)) =
     (case errMessage e of Some m \<Rightarrow> m | None \<Rightarrow> ''undefined'')"
| "failureMessage (Success (Field c)) = []"

section \<open>Scenarios\<close>

text \<open>Concrete configurations, sessions and messages on which the theorems are exercised.\<close>

definition geminiConfig :: AIConfig where
  "geminiConfig =
     \<lparr>provider = ''gemini'', apiKey = ''AIza-key'', modelId = ''gemini-live'',
      voiceName = ''Puck'', systemInstruction = ''You are James.''\<rparr>"

definition groqConfig :: AIConfig where
  "groqConfig =
     \<lparr>provider = ''openai'', apiKey = ''gsk_abc'', modelId = ''llama-3'',
      voiceName = ''Puck'', systemInstruction = ''You are James.''\<rparr>"

definition liveSession :: state where
  "liveSession = onopen (connectGemini geminiConfig GeminiReady (initial True))"

definition turnSession :: state where
  "turnSession = rec_onstart (connectOpenAI groqConfig OpenAIReady (initial True))"

definition noContent :: LiveServerMessage where
  "noContent =
     \<lparr>inputTranscription = None, outputTranscription = None, turnComplete = False,
      inlineData = None, interrupted = False\<rparr>"

definition heard :: "real \<Rightarrow> real \<Rightarrow> delivery" where
  "heard now d = \<lparr>currentTime = now, decoded = Some d, newStopRaises = False\<rparr>"

definition twoChunks :: "(delivery \<times> LiveServerMessage) list" where
  "twoChunks =
     [(heard 0 2, noContent\<lparr>inlineData := Some ''AAAA''\<rparr>),
      (heard 1 3, noContent\<lparr>inlineData := Some ''BBBB''\<rparr>)]"

definition helloTurn :: "(delivery \<times> LiveServerMessage) list" where
  "helloTurn =
     [(heard 0 0, noContent\<lparr>outputTranscription := Some ''Hel''\<rparr>),
      (heard 0 0, noContent\<lparr>outputTranscription := Some ''lo''\<rparr>)]"

definition micDenied :: js_error where
  "micDenied = \<lparr>errMessage = Some ''Permission denied'',
                errString = ''NotAllowedError: Permission denied''\<rparr>"

definition blankTurn :: "(delivery \<times> LiveServerMessage) list" where
  "blankTurn = [(heard 0 0, noContent\<lparr>outputTranscription := Some ''  ''\<rparr>)]"

definition turnEnd :: "delivery \<times> LiveServerMessage" where
  "turnEnd = (heard 0 0, noContent\<lparr>turnComplete := True\<rparr>)"

definition afterChunk :: state where
  "afterChunk = onmessage (heard 0 5) (noContent\<lparr>inlineData := Some ''AAAA''\<rparr>) liveSession"

definition reconnected :: state where
  "reconnected = onopen (connectGemini geminiConfig GeminiReady (disconnect afterChunk))"

definition micFailure :: state where
  "micFailure = connectGemini geminiConfig (FailGetUserMedia micDenied) (initial True)"

definition jamesRec :: recognition where
  "jamesRec = mkRecognition groqConfig 0"

definition statusReport :: "SpeechRecognitionResult list" where
  "statusReport = [\<lparr>alternatives = [''status report''], isFinal = True\<rparr>]"

definition thinking :: state where
  "thinking = rec_onresult jamesRec statusReport turnSession"

definition nominal :: completion where
  "nominal = Success (Field (Some ''All systems nominal''))"

definition rateLimited :: completion where
  "rateLimited = Failure (Field (Some ''rate limit exceeded''))"

definition daniel :: SpeechSynthesisVoice where
  "daniel = \<lparr>name = ''Microsoft Daniel - Portuguese (Brazil)'', lang = ''pt-BR''\<rparr>"

definition felipe :: SpeechSynthesisVoice where
  "felipe = \<lparr>name = ''Felipe Masculino'', lang = ''pt-PT''\<rparr>"

definition luciana :: SpeechSynthesisVoice where
  "luciana = \<lparr>name = ''Luciana'', lang = ''pt-BR''\<rparr>"

definition joana :: SpeechSynthesisVoice where
  "joana = \<lparr>name = ''Joana'', lang = ''pt-PT''\<rparr>"

definition samantha :: SpeechSynthesisVoice where
  "samantha = \<lparr>name = ''Samantha'', lang = ''en-US''\<rparr>"

definition maria :: SpeechSynthesisVoice where
  "maria = \<lparr>name = ''Maria Female'', lang = ''pt-BR''\<rparr>"

definition oneTurn :: "turn_event list" where
  "oneTurn =
     [RecResult jamesRec statusReport,
      RecEnd jamesRec,
      RecResult jamesRec statusReport,
      Settled jamesRec (completionRequest jamesRec ''status report'') nominal
        [samantha, luciana],
      UtteranceEnd jamesRec]"

definition openaiConfig :: AIConfig where
  "openaiConfig =
     \<lparr>provider = ''openai'', apiKey = [], modelId = ''gpt-4o'',
      voiceName = ''Puck'', systemInstruction = ''You are James.''\<rparr>"

text \<open>The entry that \<open>connect\<close> logs when no key resolves.\<close>

definition missingKeyEntry :: LogEntry where
  "missingKeyEntry =
     \<lparr>sender = system,
      message = ''Critical Error: API Key missing. Please ensure your API_KEY environment '' @
                ''variable is set.''\<rparr>"

text \<open>The two endpoints of the completion request.\<close>

definition endpointFor :: "string \<Rightarrow> string" where
  "endpointFor k =
     (if startsWith k ''gsk_'' then ''https://api.groq.com/openai/v1/chat/completions''
      else ''https://api.openai.com/v1/chat/completions'')"

text \<open>
  A chunk of five seconds, an interruption, and a chunk that arrives when the clock reads 1.
\<close>

definition bargeIn :: "(delivery \<times> LiveServerMessage) list" where
  "bargeIn =
     [(heard 0 5, noContent\<lparr>inlineData := Some ''AAAA''\<rparr>),
      (heard 0 0, noContent\<lparr>interrupted := True\<rparr>),
      (heard 1 2, noContent\<lparr>inlineData := Some ''BBBB''\<rparr>)]"

definition afterBargeIn :: state where
  "afterBargeIn = deliver (take 2 bargeIn) liveSession"

definition resumed :: "(delivery \<times> LiveServerMessage) list" where
  "resumed =
     [(heard 1 2, noContent\<lparr>inlineData := Some ''BBBB''\<rparr>),
      (heard 1 1, noContent\<lparr>inlineData := Some ''CCCC''\<rparr>)]"

text \<open>
  The doubles nearest to 0.1 and to 0.7, the double that their sum rounds to
  (0.7999999999999999), and three chunks with these durations.
\<close>

definition D01 :: real where "D01 = 3602879701896397 / 2 ^ 55"

definition D07 :: real where "D07 = 3152519739159347 / 2 ^ 52"

definition D08 :: real where "D08 = 7205759403792793 / 2 ^ 53"

definition tenths :: "(delivery \<times> LiveServerMessage) list" where
  "tenths =
     [(heard 0 D01, noContent\<lparr>inlineData := Some ''AAAA''\<rparr>),
      (heard 0 D07, noContent\<lparr>inlineData := Some ''BBBB''\<rparr>),
      (heard 0 1, noContent\<lparr>inlineData := Some ''CCCC''\<rparr>)]"

definition fetchFailed :: completion where
  "fetchFailed = Rejected \<lparr>errMessage = Some ''Failed to fetch'',
                           errString = ''TypeError: Failed to fetch''\<rparr>"

definition noUpstreamMessage :: completion where
  "noUpstreamMessage = Failure (Field None)"

definition badBody :: completion where
  "badBody = Failure (Unreadable \<lparr>errMessage = None, errString = ''[object Object]''\<rparr>)"

text \<open>The calls that releasing a ref issues: none when the ref is null.\<close>

definition released :: "'a option \<Rightarrow> ('a \<Rightarrow> call) \<Rightarrow> call list" where
  "released r c = (case r of None \<Rightarrow> [] | Some h \<Rightarrow> [c h])"

section \<open>The scenarios, evaluated\<close>

lemma liveSession_eq:
  "liveSession =
     \<lparr> status = CONNECTED,
       logs = [\<lparr>sender = system,
                message = ''Initializing JAMES audio interface (gemini-live)...''\<rparr>,
               \<lparr>sender = system, message = ''Accessing microphone feed...''\<rparr>,
               \<lparr>sender = system, message = ''Uplink established. James is online.''\<rparr>],
       outputAnalyser = Some 2,
       inputContextRef = Some 0, outputContextRef = Some 1, streamRef = Some 3,
       processorRef = Some 5, nextStartTimeRef = 0, sourcesRef = [],
       activeSessionRef = Some 4, recognitionRef = None, isProcessingRef = False,
       currentInputRef = [], currentOutputRef = [],
       hasSpeechSynthesis = True, speechQueue = [], inflight = [], calls = [],
       nextHandle = 6 \<rparr>"
  by (simp add: liveSession_def onopen_def geminiBegin_def newInputContext_def
      newOutputContext_def gotUserMedia_def sessionRequested_def fresh_def initial_def
      addLog_def setStatus_def geminiConfig_def Let_def)

section \<open>Doubles\<close>

declare bitLength.simps [simp del]

lemma bitLength_nonneg: "0 \<le> bitLength n"
  by (induction n rule: bitLength.induct) (simp add: bitLength.simps)

lemma bitLength_bounds:
  "0 < n \<Longrightarrow> 2 ^ nat (bitLength n - 1) \<le> n \<and> n < 2 ^ nat (bitLength n)"
proof (induction n rule: bitLength.induct)
  case (1 n)
  show ?case
  proof (cases "n = 1")
    case True
    then show ?thesis by (simp add: bitLength.simps[of 1] bitLength.simps[of 0])
  next
    case False
    with "1.prems" have h: "0 < n div 2" by simp
    from "1.IH" h "1.prems" have ih:
      "2 ^ nat (bitLength (n div 2) - 1) \<le> n div 2" "n div 2 < 2 ^ nat (bitLength (n div 2))"
      by simp_all
    have b: "bitLength n = 1 + bitLength (n div 2)"
      using "1.prems" by (simp add: bitLength.simps[of n])
    have p: "0 < bitLength (n div 2)"
      using h bitLength_nonneg[of "n div 2 div 2"] by (simp add: bitLength.simps[of "n div 2"])
    have e1: "nat (bitLength n - 1) = Suc (nat (bitLength (n div 2) - 1))"
      using b p by simp
    have e2: "nat (bitLength n) = Suc (nat (bitLength (n div 2)))"
      using b p by simp
    from ih show ?thesis unfolding e1 e2 by simp presburger
  qed
qed

lemma bitLength_small:
  "bitLength 0 = 0" "bitLength 1 = 1" "bitLength 9 = 4"
  by (simp_all add: bitLength.simps[of 9] bitLength.simps[of 4] bitLength.simps[of 2]
      bitLength.simps[of 1] bitLength.simps[of 0])

lemma roundEven_of_int [simp]: "roundEven (of_int m) = m"
  by (simp add: roundEven_def)

lemma roundEven_numeral [simp]: "roundEven (numeral w) = numeral w"
  using roundEven_of_int[of "numeral w"] by simp

text \<open>Rounding moves a value by at most half a unit in the last place.\<close>

lemma roundEven_error: "\<bar>of_int (roundEven q) - q\<bar> \<le> 1 / 2"
  by (simp add: roundEven_def Let_def)

lemma toDouble_error:
  "\<bar>toDouble x - x\<bar> \<le> 2 powi (max (binExp \<bar>x\<bar>) (- 1022) - 52) / 2"
proof (cases "x = 0")
  case True
  then show ?thesis by (simp add: toDouble_def)
next
  case False
  define u where "u = max (binExp \<bar>x\<bar>) (- 1022) - 52"
  define q where "q = x / 2 powi u"
  have p: "(0::real) < 2 powi u" by simp
  have x: "x = q * 2 powi u" by (simp add: q_def)
  have "toDouble x - x = (of_int (roundEven q) - q) * 2 powi u"
    using False by (simp add: toDouble_def Let_def algebra_simps flip: u_def q_def x)
  then have "\<bar>toDouble x - x\<bar> = \<bar>of_int (roundEven q) - q\<bar> * 2 powi u"
    using p by (simp add: abs_mult)
  also have "\<dots> \<le> 1 / 2 * 2 powi u"
    by (rule mult_right_mono[OF roundEven_error]) simp
  finally show ?thesis by (simp add: u_def)
qed

lemma binExp_of_int: "1 \<le> a \<Longrightarrow> binExp (of_int a) = bitLength a - 1"
  by (simp add: binExp_def)

text \<open>Every integer below \<open>2 ^ 53\<close> in magnitude is a double.\<close>

lemma toDouble_of_int:
  assumes "\<bar>n\<bar> < 2 ^ 53"
  shows "toDouble (of_int n) = of_int n"
proof (cases "n = 0")
  case True
  then show ?thesis by (simp add: toDouble_def)
next
  case False
  define a where "a = \<bar>n\<bar>"
  have pos: "0 < a" and one: "1 \<le> a" and small: "a < 2 ^ 53"
    using False assms by (simp_all add: a_def)
  define k where "k = bitLength a - 1"
  from bitLength_bounds[OF pos] have lo: "2 ^ nat k \<le> a" by (simp add: k_def)
  with small have "(2::int) ^ nat k < 2 ^ 53" by linarith
  then have "nat k < 53" by (rule power_less_imp_less_exp[rotated]) simp
  moreover have "0 \<le> k"
    using pos bitLength_nonneg[of "a div 2"] by (simp add: k_def bitLength.simps[of a])
  ultimately have k: "0 \<le> k" "k \<le> 52" by simp_all
  have "\<bar>real_of_int n\<bar> = of_int a" by (simp add: a_def)
  then have be: "binExp \<bar>real_of_int n\<bar> = k"
    using binExp_of_int[OF one] by (simp add: k_def)
  define j where "j = nat (52 - k)"
  have u: "max k (- 1022) - 52 = - int j" using k by (simp add: j_def)
  have pw: "(2::real) powi (- int j) = 1 / 2 ^ j"
    by (simp add: power_int_minus field_simps)
  have q: "real_of_int n / (1 / 2 ^ j) = of_int (n * 2 ^ j)" by simp
  show ?thesis
    using False
    unfolding toDouble_def Let_def be u pw q roundEven_of_int
    by simp
qed

lemma toDouble_small:
  "toDouble 0 = 0" "toDouble 1 = 1" "toDouble 2 = 2" "toDouble 3 = 3" "toDouble 4 = 4"
  "toDouble 5 = 5" "toDouble 6 = 6"
  using toDouble_of_int[of 0] toDouble_of_int[of 1] toDouble_of_int[of 2]
    toDouble_of_int[of 3] toDouble_of_int[of 4] toDouble_of_int[of 5] toDouble_of_int[of 6]
  by simp_all

lemma toDouble_unfold:
  assumes "x \<noteq> 0" "max (binExp \<bar>x\<bar>) (- 1022) - 52 = u"
  shows "toDouble x = of_int (roundEven (x / 2 powi u)) * 2 powi u"
  using assms by (simp add: toDouble_def)

lemma toDouble_D01: "toDouble D01 = D01"
proof -
  have c: "\<lceil>1 / D01\<rceil> = 10" unfolding D01_def by (simp add: ceiling_eq_iff)
  have l: "\<not> 1 \<le> \<bar>D01\<bar>" "D01 \<noteq> 0" "\<bar>D01\<bar> = D01" unfolding D01_def by simp_all
  have be: "max (binExp \<bar>D01\<bar>) (- 1022) - 52 = - 56"
    unfolding binExp_def using l c by (simp add: bitLength_small)
  have q: "D01 / 2 powi (- 56) = 7205759403792794"
    unfolding D01_def by (simp add: power_int_minus)
  show ?thesis
    unfolding toDouble_unfold[OF l(2) be] q roundEven_numeral
    by (simp add: D01_def power_int_minus)
qed

text \<open>The sum of the doubles nearest to 0.1 and 0.7 rounds below their exact sum.\<close>

lemma doubleAdd_tenths: "doubleAdd D01 D07 = D08" "D08 < D01 + D07"
proof -
  let ?x = "D01 + D07"
  have v: "?x = 28823037615171173 / 2 ^ 55" unfolding D01_def D07_def by simp
  have c: "\<lceil>1 / ?x\<rceil> = 2" unfolding v by (simp add: ceiling_eq_iff)
  have l: "\<not> 1 \<le> \<bar>?x\<bar>" "?x \<noteq> 0" "\<bar>?x\<bar> = ?x" unfolding v by simp_all
  have be: "max (binExp \<bar>?x\<bar>) (- 1022) - 52 = - 53"
    unfolding binExp_def using l c by (simp add: bitLength_small)
  have q: "?x / 2 powi (- 53) = 7205759403792793 + 1 / 4"
    unfolding v by (simp add: power_int_minus)
  have f: "\<lfloor>7205759403792793 + 1 / 4 :: real\<rfloor> = 7205759403792793"
    by (simp add: floor_eq_iff)
  have r: "roundEven (7205759403792793 + 1 / 4) = 7205759403792793"
    unfolding roundEven_def Let_def f by simp
  show "doubleAdd D01 D07 = D08"
    unfolding doubleAdd_def toDouble_unfold[OF l(2) be] q r
    by (simp add: D08_def power_int_minus)
  show "D08 < D01 + D07" unfolding v D08_def by simp
qed

section \<open>Playback scheduling\<close>

lemma chunks_append: "chunks (xs @ ys) = chunks xs @ chunks ys"
  by (induction xs rule: chunks.induct) auto

lemma flushTurn_sched:
  "calls (flushTurn s) = calls s"
  "nextStartTimeRef (flushTurn s) = nextStartTimeRef s"
  "outputContextRef (flushTurn s) = outputContextRef s"
  by (simp_all add: flushTurn_def addLog_def Let_def)

lemma transcriptPart_sched:
  "calls (transcriptPart m s) = calls s"
  "nextStartTimeRef (transcriptPart m s) = nextStartTimeRef s"
  "outputContextRef (transcriptPart m s) = outputContextRef s"
  by (simp_all add: transcriptPart_def flushTurn_sched)

lemma startSource_started:
  assumes "decoded env = Some d"
  shows "chunks (calls (startSource env s)) = chunks (calls s) @ [(nextStartTimeRef s, d)]"
    and "nextStartTimeRef (startSource env s) = doubleAdd (nextStartTimeRef s) d"
  using assms by (simp_all add: startSource_def issue_def chunks_append Let_def)

lemma playChunk_started:
  assumes "decoded env = Some d"
  shows "chunks (calls (playChunk env s)) =
           chunks (calls s) @ [(max (nextStartTimeRef s) (currentTime env), d)]"
    and "nextStartTimeRef (playChunk env s) =
           doubleAdd (max (nextStartTimeRef s) (currentTime env)) d"
  by (simp_all add: playChunk_def startSource_started[OF assms])

lemma chained_snoc:
  "chained (cs @ [(t, d)]) \<longleftrightarrow>
     chained cs \<and> (cs \<noteq> [] \<longrightarrow> doubleAdd (fst (last cs)) (snd (last cs)) \<le> t)"
  by (auto simp: chained_def successively_append_iff case_prod_beta)

text \<open>The invariant, with the chunks of the run named.\<close>

lemma runInv_iff:
  "runInv c0 t \<longleftrightarrow>
     (\<exists>new. chunks (calls t) = c0 @ new \<and> chained new \<and>
        (new \<noteq> [] \<longrightarrow> doubleAdd (fst (last new)) (snd (last new)) \<le> nextStartTimeRef t))"
proof
  assume r: "runInv c0 t"
  define new where "new = drop (length c0) (chunks (calls t))"
  from r have t: "take (length c0) (chunks (calls t)) = c0"
    by (simp add: runInv_def)
  have c: "chunks (calls t) = c0 @ new"
    using append_take_drop_id[of "length c0" "chunks (calls t)"] unfolding t new_def by simp
  from r have 1: "chained new"
    by (simp add: runInv_def new_def)
  from r have "new \<noteq> [] \<longrightarrow>
      doubleAdd (fst (last (chunks (calls t)))) (snd (last (chunks (calls t))))
        \<le> nextStartTimeRef t"
    by (simp add: runInv_def new_def)
  then have 2: "new \<noteq> [] \<longrightarrow> doubleAdd (fst (last new)) (snd (last new)) \<le> nextStartTimeRef t"
    unfolding c by simp
  from c 1 2 show "\<exists>new. chunks (calls t) = c0 @ new \<and> chained new \<and>
        (new \<noteq> [] \<longrightarrow> doubleAdd (fst (last new)) (snd (last new)) \<le> nextStartTimeRef t)"
    by blast
next
  assume "\<exists>new. chunks (calls t) = c0 @ new \<and> chained new \<and>
        (new \<noteq> [] \<longrightarrow> doubleAdd (fst (last new)) (snd (last new)) \<le> nextStartTimeRef t)"
  then show "runInv c0 t" by (auto simp: runInv_def)
qed

lemma runInv_start: "runInv (chunks (calls s)) s"
  by (simp add: runInv_def chained_def)

lemma runInv_cursor_up:
  assumes "runInv c0 s" "calls t = calls s" "nextStartTimeRef s \<le> nextStartTimeRef t"
  shows "runInv c0 t"
  using assms unfolding runInv_def by auto

lemma startSource_inv:
  assumes "runInv c0 s"
  shows "runInv c0 (startSource env s)"
proof (cases "decoded env")
  case None
  with assms show ?thesis by (simp add: startSource_def)
next
  case (Some d)
  from assms obtain new where n: "chunks (calls s) = c0 @ new" "chained new"
    "new \<noteq> [] \<longrightarrow> doubleAdd (fst (last new)) (snd (last new)) \<le> nextStartTimeRef s"
    unfolding runInv_iff by blast
  have "chunks (calls (startSource env s)) = c0 @ (new @ [(nextStartTimeRef s, d)])"
    by (simp add: startSource_started[OF Some] n(1))
  moreover have "chained (new @ [(nextStartTimeRef s, d)])"
    using n(2,3) by (simp add: chained_snoc)
  moreover have "doubleAdd (fst (last (new @ [(nextStartTimeRef s, d)])))
      (snd (last (new @ [(nextStartTimeRef s, d)]))) \<le> nextStartTimeRef (startSource env s)"
    by (simp add: startSource_started[OF Some])
  ultimately show ?thesis unfolding runInv_iff by blast
qed

lemma playChunk_inv:
  assumes "runInv c0 s"
  shows "runInv c0 (playChunk env s)"
  unfolding playChunk_def
  by (rule startSource_inv) (rule runInv_cursor_up[OF assms], simp_all)

lemma onmessage_alt:
  "onmessage env m s =
     (let s4 = (if hasAudio m (transcriptPart m s) then playChunk env (transcriptPart m s)
                else transcriptPart m s)
      in if interrupted m then onInterrupted s4 else s4)"
  by (cases "inlineData m"; cases "turnComplete m")
     (simp_all add: onmessage_def transcriptPart_def hasAudio_def Let_def)

lemma hasAudio_transcriptPart: "hasAudio m (transcriptPart m s) = hasAudio m s"
  by (simp add: hasAudio_def transcriptPart_sched)

lemma onmessage_cases:
  assumes "\<not> interrupted m"
  shows "onmessage env m s =
           (if (\<exists>b. inlineData m = Some b \<and> truthy b) \<and> outputContextRef s \<noteq> None
            then playChunk env (transcriptPart m s) else transcriptPart m s)"
  using assms
  by (auto simp: onmessage_alt hasAudio_transcriptPart hasAudio_def transcriptPart_sched
      split: option.splits)

lemma onmessage_inv:
  assumes "\<not> interrupted m" "runInv c0 s"
  shows "runInv c0 (onmessage env m s)"
proof -
  have a: "runInv c0 (transcriptPart m s)"
    by (rule runInv_cursor_up[OF assms(2)]) (simp_all add: transcriptPart_sched)
  show ?thesis
    using a playChunk_inv[OF a] by (simp add: onmessage_cases[OF assms(1)])
qed

lemma deliver_inv:
  assumes "\<forall>(env, m) \<in> set evs. \<not> interrupted m" and "runInv c0 s"
  shows "runInv c0 (deliver evs s)"
  using assms
proof (induction evs arbitrary: s)
  case Nil
  then show ?case by simp
next
  case (Cons a evs)
  obtain env m where a: "a = (env, m)" by (cases a)
  from Cons.prems a have "\<not> interrupted m" by simp
  from onmessage_inv[OF this Cons.prems(2)] Cons.IH Cons.prems(1) a
  show ?case by simp
qed

lemma onmessage_started:
  assumes "inlineData m = Some b" "truthy b" "outputContextRef s \<noteq> None"
      and "decoded env = Some d" "\<not> interrupted m"
  shows "chunks (calls (onmessage env m s)) =
           chunks (calls s) @ [(max (nextStartTimeRef s) (currentTime env), d)] \<and>
         nextStartTimeRef (onmessage env m s) =
           doubleAdd (max (nextStartTimeRef s) (currentTime env)) d"
  using assms
  by (simp add: onmessage_cases playChunk_started transcriptPart_sched)

lemma twoChunks_run:
  "chunks (calls (deliver twoChunks liveSession)) = [(0, 2), (2, 3)]"
  by (simp add: liveSession_eq twoChunks_def heard_def noContent_def onmessage_def
      playChunk_def startSource_def issue_def appendDelta_def Let_def doubleAdd_def
      toDouble_small)

lemma afterBargeIn_eq:
  "afterBargeIn =
     liveSession\<lparr>logs := logs liveSession @ [\<lparr>sender = system, message = ''Interruption detected.''\<rparr>],
       calls := [SourceStart \<lparr>node = 6, duration = 5, stopRaises = False\<rparr> 0, SourceStop 6],
       nextHandle := 7\<rparr>"
proof -
  have t: "trim [] = []" by (simp add: trim_def)
  show ?thesis
    by (simp add: afterBargeIn_def bargeIn_def liveSession_eq heard_def noContent_def
        onmessage_def playChunk_def startSource_def issue_def appendDelta_def onInterrupted_def
        addLog_def t Let_def doubleAdd_def toDouble_small)
qed

lemma resumed_run:
  "chunks (calls (deliver resumed afterBargeIn)) = [(0, 5), (1, 2), (3, 1)]"
  by (simp add: afterBargeIn_eq liveSession_eq resumed_def heard_def noContent_def
      onmessage_def playChunk_def startSource_def issue_def appendDelta_def Let_def
      doubleAdd_def toDouble_small)

lemma bargeIn_run:
  "chunks (calls (deliver bargeIn liveSession)) = [(0, 5), (1, 2)]"
proof -
  have "deliver bargeIn liveSession =
          deliver [(heard 1 2, noContent\<lparr>inlineData := Some ''BBBB''\<rparr>)] afterBargeIn"
    by (simp add: afterBargeIn_def bargeIn_def)
  then show ?thesis
    by (simp add: afterBargeIn_eq liveSession_eq heard_def noContent_def
        onmessage_def playChunk_def startSource_def issue_def appendDelta_def Let_def
        doubleAdd_def toDouble_small)
qed

lemma tenths_run:
  "chunks (calls (deliver tenths liveSession)) = [(0, D01), (D01, D07), (D08, 1)]"
proof -
  have p: "(0::real) \<le> D01" "(0::real) \<le> D08" by (simp_all add: D01_def D08_def)
  have a: "doubleAdd 0 D01 = D01" by (simp add: doubleAdd_def toDouble_D01)
  show ?thesis
    by (simp add: liveSession_eq tenths_def heard_def noContent_def onmessage_def
        playChunk_def startSource_def issue_def appendDelta_def Let_def a p
        doubleAdd_tenths(1) max_absorb1)
qed

text \<open>
  Claim C1, as stated, on the code: after an interruption the cursor is 0 again, so the
  chunk that follows starts at the clock, here at 1, before the start plus the duration of
  the chunk started before the interruption, \<open>0 + 5\<close>. Without any interruption the third of
  three chunks starts at the double sum 0.7999999999999999 of the second chunk's start and
  duration, which is below their exact sum.
\<close>

theorem playback_not_back_to_back:
  "chunks (calls (deliver bargeIn liveSession)) = [(0, 5), (1, 2)] \<and>
   \<not> backToBack (chunks (calls (deliver bargeIn liveSession))) \<and>
   chunks (calls (deliver tenths liveSession)) = [(0, D01), (D01, D07), (D08, 1)] \<and>
   \<not> backToBack (chunks (calls (deliver tenths liveSession)))"
proof -
  have "\<not> backToBack [(0, 5), (1, 2)]" by (simp add: backToBack_def)
  moreover have "\<not> backToBack [(0, D01), (D01, D07), (D08, 1)]"
    using doubleAdd_tenths(2) by (simp add: backToBack_def)
  ultimately show ?thesis by (simp add: bargeIn_run tenths_run)
qed

text \<open>
  Claim C1, amended. From any state, over messages handled one after the other of which
  none carries the interruption flag: the chunks started before stay as they are; each
  chunk that is started begins at \<open>max cursor currentTime\<close>, and the cursor then becomes
  the double sum of that start and the duration of the chunk; so every chunk started in
  the run begins no earlier than the double sum of the start and the duration of the
  chunk started before it in the run.
\<close>

theorem playback_chained:
  assumes "\<forall>(env, m) \<in> set evs. \<not> interrupted m"
  shows "chunks (calls (deliver evs s)) = chunks (calls s) @ startedSince s (deliver evs s) \<and>
         chained (startedSince s (deliver evs s)) \<and>
         (\<forall>env m b d s'.
            inlineData m = Some b \<and> truthy b \<and> outputContextRef s' \<noteq> None \<and>
            decoded env = Some d \<and> \<not> interrupted m \<longrightarrow>
            chunks (calls (onmessage env m s')) =
              chunks (calls s') @ [(max (nextStartTimeRef s') (currentTime env), d)] \<and>
            nextStartTimeRef (onmessage env m s') =
              doubleAdd (max (nextStartTimeRef s') (currentTime env)) d)"
proof -
  from deliver_inv[OF assms runInv_start, of s]
  have r: "runInv (chunks (calls s)) (deliver evs s)" .
  then have "chunks (calls (deliver evs s)) = chunks (calls s) @ startedSince s (deliver evs s)"
    unfolding runInv_def startedSince_def by (metis append_take_drop_id)
  moreover from r have "chained (startedSince s (deliver evs s))"
    by (simp add: runInv_def startedSince_def)
  ultimately show ?thesis using onmessage_started by blast
qed

theorem playback_chained_witness:
  "map (\<lambda>(env, m). interrupted m) twoChunks = [False, False] \<and>
   startedSince liveSession (deliver twoChunks liveSession) = [(0, 2), (2, 3)] \<and>
   chained [(0, 2), (2, 3)] \<and>
   map (\<lambda>(env, m). interrupted m) resumed = [False, False] \<and>
   chunks (calls afterBargeIn) = [(0, 5)] \<and>
   startedSince afterBargeIn (deliver resumed afterBargeIn) = [(1, 2), (3, 1)] \<and>
   chained [(1, 2), (3, 1)]"
proof -
  have h1: "\<forall>(env, m) \<in> set twoChunks. \<not> interrupted m"
    by (simp add: twoChunks_def noContent_def)
  have h2: "\<forall>(env, m) \<in> set resumed. \<not> interrupted m"
    by (simp add: resumed_def noContent_def)
  have m1: "map (\<lambda>(env, m). interrupted m) twoChunks = [False, False]"
    by (simp add: twoChunks_def noContent_def)
  have m2: "map (\<lambda>(env, m). interrupted m) resumed = [False, False]"
    by (simp add: resumed_def noContent_def)
  have c0: "chunks (calls liveSession) = []" "chunks (calls afterBargeIn) = [(0, 5)]"
    by (simp_all add: afterBargeIn_eq liveSession_eq)
  have s1: "startedSince liveSession (deliver twoChunks liveSession) = [(0, 2), (2, 3)]"
    by (simp add: startedSince_def c0 twoChunks_run)
  have s2: "startedSince afterBargeIn (deliver resumed afterBargeIn) = [(1, 2), (3, 1)]"
    by (simp add: startedSince_def c0 resumed_run)
  from playback_chained[OF h1, of liveSession] playback_chained[OF h2, of afterBargeIn]
  have "chained [(0, 2), (2, 3)]" "chained [(1, 2), (3, 1)]"
    unfolding s1 s2 by blast+
  with m1 m2 c0 s1 s2 show ?thesis by blast
qed

subsection \<open>The callback split at its await\<close>

text \<open>Handled without anything in between, the two parts are the whole callback.\<close>

lemma onmessage_parts:
  "onmessage env m s = resumeMessage env m (hasAudio m s) (beginMessage env m s)"
  unfolding onmessage_alt resumeMessage_def beginMessage_def Let_def hasAudio_transcriptPart
  by (simp add: playChunk_def)

lemma beginMessage_inv:
  assumes "runInv c0 s"
  shows "runInv c0 (beginMessage env m s)"
  by (rule runInv_cursor_up[OF assms])
     (simp_all add: beginMessage_def transcriptPart_sched Let_def)

lemma runPart_inv:
  assumes "\<not> partInterrupted p" "runInv c0 s"
  shows "runInv c0 (runPart p s)"
proof (cases p)
  case (Begin env m)
  with beginMessage_inv[OF assms(2)] show ?thesis by simp
next
  case (Resume env m audio)
  with assms startSource_inv[OF assms(2)] show ?thesis
    by (simp add: resumeMessage_def)
qed

text \<open>
  The chunks of a run stay chained however the parts of the callbacks of different
  messages follow one another.
\<close>

lemma interleaved_parts_inv:
  assumes "\<forall>p \<in> set ps. \<not> partInterrupted p" and "runInv c0 s"
  shows "runInv c0 (fold runPart ps s)"
  using assms
proof (induction ps arbitrary: s)
  case Nil
  then show ?case by simp
next
  case (Cons p ps)
  from Cons.prems have "\<not> partInterrupted p" by simp
  from runPart_inv[OF this Cons.prems(2)] Cons.IH Cons.prems(1)
  show ?case by simp
qed

section \<open>Transcripts\<close>

lemma appendDelta_eq: "appendDelta d buf = buf @ deltaText d"
  by (simp add: appendDelta_def deltaText_def split: option.splits)

lemma playChunk_text:
  "logs (playChunk env s) = logs s"
  "currentInputRef (playChunk env s) = currentInputRef s"
  "currentOutputRef (playChunk env s) = currentOutputRef s"
  by (simp_all add: playChunk_def startSource_def issue_def Let_def split: option.splits)

lemma flushTurn_text:
  "logs (flushTurn s) =
     logs s @ flushed user (currentInputRef s) @ flushed ai (currentOutputRef s)"
  "currentInputRef (flushTurn s) = afterFlush (currentInputRef s)"
  "currentOutputRef (flushTurn s) = afterFlush (currentOutputRef s)"
  by (simp_all add: flushTurn_def flushed_def afterFlush_def addLog_def Let_def)

lemma transcriptPart_delta:
  assumes "\<not> turnComplete m"
  shows "logs (transcriptPart m s) = logs s"
    and "currentInputRef (transcriptPart m s) =
           currentInputRef s @ deltaText (inputTranscription m)"
    and "currentOutputRef (transcriptPart m s) =
           currentOutputRef s @ deltaText (outputTranscription m)"
  using assms by (simp_all add: transcriptPart_def appendDelta_eq)

lemma transcriptPart_turnComplete:
  assumes "turnComplete m"
  shows "logs (transcriptPart m s) =
           logs s @ flushed user (currentInputRef s @ deltaText (inputTranscription m))
                  @ flushed ai (currentOutputRef s @ deltaText (outputTranscription m))"
    and "currentInputRef (transcriptPart m s) =
           afterFlush (currentInputRef s @ deltaText (inputTranscription m))"
    and "currentOutputRef (transcriptPart m s) =
           afterFlush (currentOutputRef s @ deltaText (outputTranscription m))"
  using assms by (simp_all add: transcriptPart_def appendDelta_eq flushTurn_text)

lemma onmessage_text:
  assumes "\<not> interrupted m"
  shows "logs (onmessage env m s) = logs (transcriptPart m s)"
    and "currentInputRef (onmessage env m s) = currentInputRef (transcriptPart m s)"
    and "currentOutputRef (onmessage env m s) = currentOutputRef (transcriptPart m s)"
  by (simp_all add: onmessage_cases[OF assms] playChunk_text)

lemma deliver_append: "deliver (xs @ ys) s = deliver ys (deliver xs s)"
  by (induction xs arbitrary: s) auto

lemma deliver_deltas:
  assumes "\<forall>(env, m) \<in> set evs. \<not> turnComplete m \<and> \<not> interrupted m"
  shows "logs (deliver evs s) = logs s \<and>
         currentInputRef (deliver evs s) = currentInputRef s @ inputText evs \<and>
         currentOutputRef (deliver evs s) = currentOutputRef s @ outputText evs"
  using assms
proof (induction evs arbitrary: s)
  case Nil
  then show ?case by (simp add: inputText_def outputText_def)
next
  case (Cons a evs)
  obtain env m where a: "a = (env, m)" by (cases a)
  with Cons.prems have m: "\<not> turnComplete m" "\<not> interrupted m" by auto
  from Cons.prems have "\<forall>(env, m) \<in> set evs. \<not> turnComplete m \<and> \<not> interrupted m"
    by simp
  from Cons.IH[OF this, of "onmessage env m s"] show ?case
    by (simp add: a onmessage_text[OF m(2)] transcriptPart_delta[OF m(1)]
        inputText_def outputText_def)
qed

text \<open>
  Claim C5. Deltas are appended in the order the messages arrive. A turn-complete message
  (not an interruption) that follows any run of messages without turn-complete or
  interruption flag appends, for the input and then for the output buffer, one entry with
  the trimmed accumulated text when that text is not all white space, and empties that
  buffer; an accumulated text that is all white space gives no entry.
\<close>

theorem transcript_flush:
  assumes "\<forall>(env, m) \<in> set evs. \<not> turnComplete m \<and> \<not> interrupted m"
      and "turnComplete tc" and "\<not> interrupted tc"
  shows "logs (deliver (evs @ [(e, tc)]) s) =
           logs s @ flushed user (currentInputRef s @ inputText (evs @ [(e, tc)]))
                  @ flushed ai (currentOutputRef s @ outputText (evs @ [(e, tc)])) \<and>
         currentInputRef (deliver (evs @ [(e, tc)]) s) =
           afterFlush (currentInputRef s @ inputText (evs @ [(e, tc)])) \<and>
         currentOutputRef (deliver (evs @ [(e, tc)]) s) =
           afterFlush (currentOutputRef s @ outputText (evs @ [(e, tc)]))"
  using deliver_deltas[OF assms(1), of s]
  by (simp add: deliver_append onmessage_text[OF assms(3)]
      transcriptPart_turnComplete[OF assms(2)] inputText_def outputText_def)

theorem transcript_flush_witness:
  "map (\<lambda>(env, m). (turnComplete m, interrupted m)) helloTurn = [(False, False), (False, False)] \<and>
   turnComplete (snd turnEnd) \<and> \<not> interrupted (snd turnEnd) \<and>
   logs (deliver (helloTurn @ [turnEnd]) liveSession) =
     logs liveSession @ [\<lparr>sender = ai, message = ''Hello''\<rparr>] \<and>
   currentOutputRef (deliver (helloTurn @ [turnEnd]) liveSession) = [] \<and>
   logs (deliver (blankTurn @ [turnEnd]) liveSession) = logs liveSession \<and>
   currentOutputRef (deliver (blankTurn @ [turnEnd]) liveSession) = ''  ''"
proof -
  have h1: "\<forall>(env, m) \<in> set helloTurn. \<not> turnComplete m \<and> \<not> interrupted m"
    by (simp add: helloTurn_def noContent_def)
  have b1: "\<forall>(env, m) \<in> set blankTurn. \<not> turnComplete m \<and> \<not> interrupted m"
    by (simp add: blankTurn_def noContent_def)
  have h2: "turnComplete (snd turnEnd)" and h3: "\<not> interrupted (snd turnEnd)"
    by (simp_all add: turnEnd_def noContent_def)
  have e: "turnEnd = (fst turnEnd, snd turnEnd)" by simp
  have t: "trim ''Hello'' = ''Hello''" "trim ''  '' = []" "trim [] = []"
    by (simp_all add: trim_def isWhiteSpace_def)
  have l: "currentInputRef liveSession = []" "currentOutputRef liveSession = []"
    by (simp_all add: liveSession_eq)
  have x: "outputText (helloTurn @ [turnEnd]) = ''Hello''" "inputText (helloTurn @ [turnEnd]) = []"
          "outputText (blankTurn @ [turnEnd]) = ''  ''" "inputText (blankTurn @ [turnEnd]) = []"
    by (simp_all add: outputText_def inputText_def helloTurn_def blankTurn_def turnEnd_def
        noContent_def deltaText_def)
  have m: "map (\<lambda>(env, m). (turnComplete m, interrupted m)) helloTurn =
             [(False, False), (False, False)]"
    by (simp add: helloTurn_def noContent_def)
  from transcript_flush[OF h1 h2 h3, of "fst turnEnd" liveSession]
       transcript_flush[OF b1 h2 h3, of "fst turnEnd" liveSession] h2 h3 m
  show ?thesis
    unfolding e[symmetric] x l
    by (simp add: flushed_def afterFlush_def t)
qed

section \<open>Teardown\<close>

lemma released_None [simp]: "released None c = []"
  by (simp add: released_def)

lemma step_eqs:
  "closeInput s = s\<lparr>calls := calls s @ released (inputContextRef s) ContextClose,
                    inputContextRef := None\<rparr>"
  "closeOutput s = s\<lparr>calls := calls s @ released (outputContextRef s) ContextClose,
                     outputContextRef := None\<rparr>"
  "stopStream s = s\<lparr>calls := calls s @ released (streamRef s) TrackStop, streamRef := None\<rparr>"
  "disconnectProcessor s =
     s\<lparr>calls := calls s @ released (processorRef s) ProcessorDisconnect, processorRef := None\<rparr>"
  "stopRecognition s =
     s\<lparr>calls := calls s @ released (recognitionRef s) (\<lambda>r. RecognitionStop (recId r)),
       recognitionRef := None\<rparr>"
  "cancelSynthesis s = s\<lparr>speechQueue := (if hasSpeechSynthesis s then [] else speechQueue s)\<rparr>"
  by (simp_all add: closeInput_def closeOutput_def stopStream_def disconnectProcessor_def
      stopRecognition_def cancelSynthesis_def released_def issue_def split: option.splits)

lemma cleanup_eq:
  "cleanup s =
     s\<lparr>calls := calls s @ map (\<lambda>src. SourceStop (node src)) (sourcesRef s)
                 @ released (inputContextRef s) ContextClose
                 @ released (outputContextRef s) ContextClose
                 @ released (streamRef s) TrackStop
                 @ released (processorRef s) ProcessorDisconnect
                 @ released (recognitionRef s) (\<lambda>r. RecognitionStop (recId r)),
       sourcesRef := [], inputContextRef := None, outputContextRef := None,
       streamRef := None, processorRef := None, recognitionRef := None,
       speechQueue := (if hasSpeechSynthesis s then [] else speechQueue s),
       activeSessionRef := None, outputAnalyser := None, status := DISCONNECTED\<rparr>"
  by (simp add: cleanup_def setStatus_def stopSources_def step_eqs)

lemma cleanup_addLog: "cleanup (addLog w m s) = addLog w m (cleanup s)"
  by (simp add: cleanup_eq addLog_def)

lemma cleanup_setStatus: "cleanup (setStatus c s) = cleanup s"
  by (simp add: cleanup_eq setStatus_def)

lemma cleanup_idem: "cleanup (cleanup s) = cleanup s"
  by (simp add: cleanup_eq)

lemma status_cleanup: "status (cleanup s) = DISCONNECTED"
  by (simp add: cleanup_eq)

text \<open>
  Claim C3. A second \<open>disconnect\<close> right after the first changes nothing but the log, to
  which it appends its entry, and the status is \<open>DISCONNECTED\<close>: the second \<open>cleanup\<close>
  finds every ref null and the source set empty, issues no call on any handle, cancels an
  already empty utterance queue and sets again what is set. Over both calls each handle
  held at the start is released once. The same holds when the other teardown is the one
  of the \<^verbatim>\<open>catch\<close> block of \<open>connectGemini\<close>, in either order: callbacks run one after
  the other, each to its end. The \<open>onerror\<close> callback of the live session runs no teardown
  of its own, before or after.
\<close>

theorem disconnect_idempotent:
  "disconnect (disconnect s) = addLog system ''Terminating Uplink...'' (disconnect s) \<and>
   status (disconnect (disconnect s)) = DISCONNECTED \<and>
   cleanup (cleanup s) = cleanup s \<and>
   calls (disconnect (disconnect s)) =
     calls s @ map (\<lambda>src. SourceStop (node src)) (sourcesRef s)
             @ released (inputContextRef s) ContextClose
             @ released (outputContextRef s) ContextClose
             @ released (streamRef s) TrackStop
             @ released (processorRef s) ProcessorDisconnect
             @ released (recognitionRef s) (\<lambda>r. RecognitionStop (recId r)) \<and>
   disconnect (geminiCatch e s) = addLog system ''Terminating Uplink...'' (geminiCatch e s) \<and>
   (\<exists>msg. geminiCatch e (disconnect s) = addLog system msg (disconnect s)) \<and>
   calls (disconnect (onerror err s)) = calls (disconnect s) \<and>
   calls (onerror err (disconnect s)) = calls (disconnect s)"
proof -
  have 5: "calls (disconnect (onerror err s)) = calls (disconnect s)"
          "calls (onerror err (disconnect s)) = calls (disconnect s)"
    by (simp_all add: disconnect_def onerror_def cleanup_addLog cleanup_setStatus)
       (simp_all add: addLog_def setStatus_def)
  have 0: "calls (disconnect (disconnect s)) =
     calls s @ map (\<lambda>src. SourceStop (node src)) (sourcesRef s)
             @ released (inputContextRef s) ContextClose
             @ released (outputContextRef s) ContextClose
             @ released (streamRef s) TrackStop
             @ released (processorRef s) ProcessorDisconnect
             @ released (recognitionRef s) (\<lambda>r. RecognitionStop (recId r))"
    by (simp add: disconnect_def cleanup_addLog cleanup_idem) (simp add: cleanup_eq addLog_def)
  have 1: "disconnect (disconnect s) = addLog system ''Terminating Uplink...'' (disconnect s)"
    by (simp add: disconnect_def cleanup_addLog cleanup_idem)
  have 2: "status (disconnect (disconnect s)) = DISCONNECTED"
    by (simp add: disconnect_def status_cleanup)
  have 3: "disconnect (geminiCatch e s) =
             addLog system ''Terminating Uplink...'' (geminiCatch e s)"
    by (simp add: disconnect_def geminiCatch_def Let_def cleanup_addLog cleanup_idem)
  have 4: "\<exists>msg. geminiCatch e (disconnect s) = addLog system msg (disconnect s)"
    by (auto simp: disconnect_def geminiCatch_def Let_def cleanup_addLog cleanup_idem
        cleanup_setStatus)
  from 0 1 2 3 4 5 cleanup_idem show ?thesis by blast
qed

lemma onInterrupted_resets:
  assumes "\<forall>src \<in> set (sourcesRef s). \<not> stopRaises src"
  shows "nextStartTimeRef (onInterrupted s) = 0 \<and> sourcesRef (onInterrupted s) = []"
proof -
  have "\<forall>src \<in> set xs. \<not> stopRaises src \<Longrightarrow> snd (stopUntilRaise xs)" for xs
    by (induction xs) (auto split: prod.splits)
  with assms have "snd (stopUntilRaise (sourcesRef s))" by blast
  then show ?thesis
    by (cases "stopUntilRaise (sourcesRef s)") (simp add: onInterrupted_def addLog_def Let_def)
qed

lemma onInterrupted_raise:
  assumes "sourcesRef s = src # rest" "stopRaises src"
  shows "sourcesRef (onInterrupted s) = src # rest \<and>
         nextStartTimeRef (onInterrupted s) = nextStartTimeRef s"
  using assms by (simp add: onInterrupted_def addLog_def Let_def)

lemma afterChunk_eq:
  "afterChunk =
     liveSession\<lparr>nextStartTimeRef := 5,
       sourcesRef := [\<lparr>node = 6, duration = 5, stopRaises = False\<rparr>],
       calls := [SourceStart \<lparr>node = 6, duration = 5, stopRaises = False\<rparr> 0],
       nextHandle := 7\<rparr>"
  by (simp add: afterChunk_def liveSession_eq heard_def noContent_def onmessage_def
      playChunk_def startSource_def issue_def appendDelta_def Let_def doubleAdd_def
      toDouble_small)

lemma disconnect_afterChunk:
  "disconnect afterChunk =
     \<lparr> status = DISCONNECTED,
       logs = logs liveSession @ [\<lparr>sender = system, message = ''Terminating Uplink...''\<rparr>],
       outputAnalyser = None,
       inputContextRef = None, outputContextRef = None, streamRef = None,
       processorRef = None, nextStartTimeRef = 5, sourcesRef = [],
       activeSessionRef = None, recognitionRef = None, isProcessingRef = False,
       currentInputRef = [], currentOutputRef = [],
       hasSpeechSynthesis = True, speechQueue = [], inflight = [],
       calls = [SourceStart \<lparr>node = 6, duration = 5, stopRaises = False\<rparr> 0, SourceStop 6,
                ContextClose 0, ContextClose 1, TrackStop 3, ProcessorDisconnect 5],
       nextHandle = 7 \<rparr>"
  by (simp add: disconnect_def cleanup_addLog)
     (simp add: cleanup_eq afterChunk_eq liveSession_eq released_def addLog_def)

lemma reconnected_sched:
  "nextStartTimeRef reconnected = 5" "outputContextRef reconnected = Some 8"
  "calls reconnected = calls (disconnect afterChunk)"
  by (simp_all add: reconnected_def disconnect_afterChunk onopen_def geminiBegin_def
      newInputContext_def newOutputContext_def gotUserMedia_def sessionRequested_def
      fresh_def addLog_def setStatus_def Let_def)

text \<open>
  Claim C2, on the code. \<open>cleanup\<close> stops every registered source and clears the set, but
  does not assign the cursor: after a session that scheduled one chunk of five seconds,
  \<open>disconnect\<close> leaves the cursor at 5, and the first chunk of the next session, whose new
  output context reads clock 0, is started at 5.
\<close>

theorem teardown_keeps_cursor:
  "nextStartTimeRef (cleanup s) = nextStartTimeRef s \<and>
   nextStartTimeRef afterChunk = 5 \<and>
   nextStartTimeRef (disconnect afterChunk) = 5 \<and>
   sourcesRef (disconnect afterChunk) = [] \<and>
   chunks (calls (onmessage (heard 0 1) (noContent\<lparr>inlineData := Some ''BBBB''\<rparr>) reconnected))
     = [(0, 5), (5, 1)]"
proof -
  have 1: "nextStartTimeRef (cleanup s) = nextStartTimeRef s"
    by (simp add: cleanup_eq)
  have 2: "nextStartTimeRef afterChunk = 5"
    by (simp add: afterChunk_eq)
  have 3: "nextStartTimeRef (disconnect afterChunk) = 5"
          "sourcesRef (disconnect afterChunk) = []"
    by (simp_all add: disconnect_afterChunk)
  have m: "inlineData (noContent\<lparr>inlineData := Some ''BBBB''\<rparr>) = Some ''BBBB''"
          "\<not> interrupted (noContent\<lparr>inlineData := Some ''BBBB''\<rparr>)"
          "decoded (heard 0 1) = Some 1" "currentTime (heard 0 1) = 0"
    by (simp_all add: noContent_def heard_def)
  have 4: "chunks (calls (onmessage (heard 0 1) (noContent\<lparr>inlineData := Some ''BBBB''\<rparr>)
             reconnected)) = [(0, 5), (5, 1)]"
    using onmessage_started[OF m(1) _ _ m(3) m(2), of reconnected]
    by (simp add: reconnected_sched m(4) disconnect_afterChunk)
  from 1 2 3 4 show ?thesis by blast
qed

section \<open>Setup failure of the live pipeline\<close>

lemma not_unavailable:
  "\<not> includes_str ''Permission denied'' ''service is currently unavailable''"
  by (simp add: startsWith_def)

lemma micFailure_eq:
  "micFailure =
     \<lparr> status = DISCONNECTED,
       logs = [\<lparr>sender = system,
                message = ''Initializing JAMES audio interface (gemini-live)...''\<rparr>,
               \<lparr>sender = system, message = ''Accessing microphone feed...''\<rparr>,
               \<lparr>sender = system, message = ''Init Error: Permission denied''\<rparr>],
       outputAnalyser = None,
       inputContextRef = None, outputContextRef = None, streamRef = None,
       processorRef = None, nextStartTimeRef = 0, sourcesRef = [],
       activeSessionRef = None, recognitionRef = None, isProcessingRef = False,
       currentInputRef = [], currentOutputRef = [],
       hasSpeechSynthesis = True, speechQueue = [], inflight = [],
       calls = [ContextClose 0, ContextClose 1],
       nextHandle = 3 \<rparr>"
proof -
  have pre: "newOutputContext (newInputContext (geminiBegin geminiConfig (initial True))) =
     \<lparr> status = CONNECTING,
       logs = [\<lparr>sender = system,
                message = ''Initializing JAMES audio interface (gemini-live)...''\<rparr>,
               \<lparr>sender = system, message = ''Accessing microphone feed...''\<rparr>],
       outputAnalyser = Some 2,
       inputContextRef = Some 0, outputContextRef = Some 1, streamRef = None,
       processorRef = None, nextStartTimeRef = 0, sourcesRef = [],
       activeSessionRef = None, recognitionRef = None, isProcessingRef = False,
       currentInputRef = [], currentOutputRef = [],
       hasSpeechSynthesis = True, speechQueue = [], inflight = [], calls = [],
       nextHandle = 3 \<rparr>"
    by (simp add: geminiBegin_def newInputContext_def newOutputContext_def fresh_def
        initial_def addLog_def setStatus_def geminiConfig_def Let_def)
  have msg: "errorText micDenied = ''Permission denied''"
    by (simp add: errorText_def micDenied_def)
  have gc: "geminiCatch micDenied s =
      cleanup (setStatus ERROR (addLog system (''Init Error: '' @ ''Permission denied'') s))" for s
    unfolding geminiCatch_def Let_def msg by (simp only: not_unavailable if_False)
  show ?thesis
    unfolding micFailure_def connectGemini.simps gc pre
    by (simp add: cleanup_setStatus cleanup_addLog)
       (simp add: cleanup_eq addLog_def released_def)
qed

text \<open>
  Claim C4, on the code. A setup failure is caught, one entry is logged and every handle
  acquired so far is released, but the status does not stay \<open>ERROR\<close>: the \<^verbatim>\<open>catch\<close> block
  sets \<open>ERROR\<close> and then calls \<open>cleanup\<close>, which sets \<open>DISCONNECTED\<close>.
\<close>

theorem setup_failure_ends_disconnected:
  "status (geminiCatch e s) = DISCONNECTED \<and>
   status micFailure = DISCONNECTED \<and>
   logs micFailure =
     [\<lparr>sender = system, message = ''Initializing JAMES audio interface (gemini-live)...''\<rparr>,
      \<lparr>sender = system, message = ''Accessing microphone feed...''\<rparr>,
      \<lparr>sender = system, message = ''Init Error: Permission denied''\<rparr>] \<and>
   calls micFailure = [ContextClose 0, ContextClose 1] \<and>
   inputContextRef micFailure = None \<and> outputContextRef micFailure = None \<and>
   streamRef micFailure = None \<and> processorRef micFailure = None"
  by (simp add: micFailure_eq) (simp add: geminiCatch_def Let_def status_cleanup)

section \<open>Entry point\<close>

lemma logs_cleanup: "logs (cleanup s) = logs s"
  by (simp add: cleanup_eq)

lemma geminiCatch_logs: "\<exists>m. logs (geminiCatch e s) = logs s @ [\<lparr>sender = system, message = m\<rparr>]"
  by (simp add: geminiCatch_def Let_def logs_cleanup setStatus_def addLog_def)

lemma stage_logs:
  "logs (geminiBegin config s) =
     logs s @ [\<lparr>sender = system,
                message = ''Initializing JAMES audio interface ('' @ modelId config @ '')...''\<rparr>]"
  "logs (newInputContext s) = logs s"
  "logs (newOutputContext s) = logs s @ [\<lparr>sender = system, message = ''Accessing microphone feed...''\<rparr>]"
  "logs (gotUserMedia s) = logs s"
  "logs (sessionRequested s) = logs s"
  by (simp_all add: geminiBegin_def newInputContext_def newOutputContext_def gotUserMedia_def
      sessionRequested_def fresh_def addLog_def setStatus_def Let_def)

lemma connectGemini_first_log:
  "\<exists>rest. logs (connectGemini config gs s) =
     logs s @ \<lparr>sender = system,
               message = ''Initializing JAMES audio interface ('' @ modelId config @ '')...''\<rparr> # rest"
proof (cases gs)
  case (FailInputContext e)
  with geminiCatch_logs[of e "geminiBegin config s"] show ?thesis
    by (auto simp: stage_logs)
next
  case (FailOutputContext e)
  with geminiCatch_logs[of e "newInputContext (geminiBegin config s)"] show ?thesis
    by (auto simp: stage_logs)
next
  case (FailGetUserMedia e)
  with geminiCatch_logs[of e "newOutputContext (newInputContext (geminiBegin config s))"]
  show ?thesis by (auto simp: stage_logs)
next
  case (FailSession e)
  with geminiCatch_logs[of e
      "gotUserMedia (newOutputContext (newInputContext (geminiBegin config s)))"]
  show ?thesis by (auto simp: stage_logs)
next
  case GeminiReady
  then show ?thesis by (simp add: stage_logs)
qed

lemma openai_stage_logs:
  "logs (openaiBegin config s) =
     logs s @ [\<lparr>sender = system,
                message = ''Initializing adapter for '' @
                  (if startsWith (apiKey config) ''gsk_'' then ''Groq'' else ''OpenAI'') @
                  '' ('' @ modelId config @ '')...''\<rparr>]"
  "logs (recognitionStarted config s) = logs s"
  "logs (openaiCatch e s) = logs s @ [\<lparr>sender = system, message = ''Init Error: '' @ templated (errMessage e)\<rparr>]"
  "logs (fresh s) = logs s"
  by (simp_all add: openaiBegin_def recognitionStarted_def openaiCatch_def fresh_def
      addLog_def setStatus_def issue_def Let_def)

lemma connectOpenAI_first_log:
  "\<exists>m rest. logs (connectOpenAI config os s) = logs s @ \<lparr>sender = system, message = m\<rparr> # rest \<and>
            (hd m = CHR ''E'' \<or> hd m = CHR ''I'')"
  by (cases os) (auto simp: connectOpenAI_def openai_stage_logs Let_def addLog_def setStatus_def)

lemma keyMissing_eq: "keyMissing s = s\<lparr>logs := logs s @ [missingKeyEntry], status := ERROR\<rparr>"
  by (simp add: keyMissing_def missingKeyEntry_def addLog_def setStatus_def)

lemma first_log_differs:
  assumes "logs t = logs s @ \<lparr>sender = system, message = m\<rparr> # rest" "hd m \<noteq> CHR ''C''"
  shows "logs t ! length (logs s) \<noteq> missingKeyEntry"
  using assms by (auto simp: missingKeyEntry_def nth_append)

text \<open>
  Claim C6. When the key of the config is empty and the environment variable is unset (or
  empty), \<open>connect\<close> appends the one system entry about the missing key, sets \<open>ERROR\<close>
  and changes nothing else: no handle is created and no call issued. When a non-empty key
  resolves, \<open>connect\<close> is the pipeline chosen by the provider, run on the config with that
  key, and the entry it logs first is not the one about the missing key.
\<close>

theorem connect_missing_key:
  "(\<not> truthy (apiKey config) \<and> (envKey = None \<or> envKey = Some []) \<longrightarrow>
      connect config envKey gs os s = s\<lparr>logs := logs s @ [missingKeyEntry], status := ERROR\<rparr>) \<and>
   (resolveKey config envKey = Some k \<and> truthy k \<longrightarrow>
      connect config envKey gs os s =
        (if provider config = ''gemini'' then connectGemini (config\<lparr>apiKey := k\<rparr>) gs s
         else connectOpenAI (config\<lparr>apiKey := k\<rparr>) os s) \<and>
      logs (connect config envKey gs os s) ! length (logs s) \<noteq> missingKeyEntry)"
proof -
  have a: "connect config envKey gs os s = s\<lparr>logs := logs s @ [missingKeyEntry], status := ERROR\<rparr>"
    if "\<not> truthy (apiKey config)" "envKey = None \<or> envKey = Some []"
    using that by (auto simp: connect_def resolveKey_def keyMissing_eq)
  have b: "connect config envKey gs os s =
        (if provider config = ''gemini'' then connectGemini (config\<lparr>apiKey := k\<rparr>) gs s
         else connectOpenAI (config\<lparr>apiKey := k\<rparr>) os s)"
    if "resolveKey config envKey = Some k" "truthy k"
    using that by (simp add: connect_def Let_def)
  have c: "logs (connect config envKey gs os s) ! length (logs s) \<noteq> missingKeyEntry"
    if k: "resolveKey config envKey = Some k" "truthy k"
  proof (cases "provider config = ''gemini''")
    case True
    from connectGemini_first_log[of "config\<lparr>apiKey := k\<rparr>" gs s] obtain rest where
      "logs (connectGemini (config\<lparr>apiKey := k\<rparr>) gs s) =
        logs s @ \<lparr>sender = system,
               message = ''Initializing JAMES audio interface ('' @ modelId (config\<lparr>apiKey := k\<rparr>) @ '')...''\<rparr> # rest"
      by blast
    from first_log_differs[OF this] True show ?thesis
      by (simp add: b[OF k])
  next
    case False
    from connectOpenAI_first_log[of "config\<lparr>apiKey := k\<rparr>" os s] obtain m rest where
      m: "logs (connectOpenAI (config\<lparr>apiKey := k\<rparr>) os s) = logs s @ \<lparr>sender = system, message = m\<rparr> # rest"
      "hd m = CHR ''E'' \<or> hd m = CHR ''I''"
      by blast
    from m(2) have "hd m \<noteq> CHR ''C''" by auto
    from first_log_differs[OF m(1) this] False show ?thesis
      by (simp add: b[OF k])
  qed
  from a b c show ?thesis by blast
qed


theorem connect_missing_key_witness:
  "apiKey openaiConfig = [] \<and>
   connect openaiConfig None GeminiReady OpenAIReady (initial True) =
     (initial True)\<lparr>logs := [missingKeyEntry], status := ERROR\<rparr> \<and>
   resolveKey geminiConfig None = Some ''AIza-key'' \<and>
   connect geminiConfig None GeminiReady OpenAIReady (initial True) =
     connectGemini geminiConfig GeminiReady (initial True) \<and>
   logs (connect geminiConfig None GeminiReady OpenAIReady (initial True)) ! 0 \<noteq> missingKeyEntry"
proof -
  have k: "apiKey openaiConfig = []" by (simp add: openaiConfig_def)
  have r: "resolveKey geminiConfig None = Some ''AIza-key''"
    by (simp add: resolveKey_def geminiConfig_def)
  have g: "geminiConfig\<lparr>apiKey := ''AIza-key''\<rparr> = geminiConfig" "provider geminiConfig = ''gemini''"
    by (simp_all add: geminiConfig_def)
  have i: "logs (initial True) = []" by (simp add: initial_def)
  from connect_missing_key[where config = openaiConfig and envKey = None and gs = GeminiReady
         and os = OpenAIReady and s = "initial True" and k = "[]"] k
  have c1: "connect openaiConfig None GeminiReady OpenAIReady (initial True) =
              (initial True)\<lparr>logs := [missingKeyEntry], status := ERROR\<rparr>"
    by (simp add: i)
  from connect_missing_key[where config = geminiConfig and envKey = None and gs = GeminiReady
         and os = OpenAIReady and s = "initial True" and k = "''AIza-key''"] r
  have c2: "connect geminiConfig None GeminiReady OpenAIReady (initial True) =
              connectGemini geminiConfig GeminiReady (initial True)"
    and c3: "logs (connect geminiConfig None GeminiReady OpenAIReady (initial True)) ! 0
               \<noteq> missingKeyEntry"
    by (auto simp add: g i simp del: connectGemini.simps)
  from k c1 r c2 c3 show ?thesis by blast
qed

section \<open>Turn taking\<close>

lemma settled_exclusive:
  assumes "inflight s = []" "speechQueue s = []" "isProcessingRef s"
  shows "exclusive (settled r c voices s)"
proof (cases c)
  case (Rejected e)
  with assms show ?thesis by (simp add: exclusive_def llmCatch_def issue_def addLog_def)
next
  case (Failure b)
  with assms show ?thesis
    by (cases b) (simp_all add: exclusive_def llmCatch_def issue_def addLog_def)
next
  case (Success b)
  with assms show ?thesis
    by (cases b)
       (simp_all add: exclusive_def llmCatch_def resume_def issue_def addLog_def Let_def)
qed

lemma exclusive_idle:
  "exclusive s \<Longrightarrow> \<not> isProcessingRef s \<Longrightarrow> inflight s = [] \<and> speechQueue s = []"
  by (simp add: exclusive_def)

lemma exclusive_request:
  "exclusive s \<Longrightarrow> q \<in> set (inflight s) \<Longrightarrow>
     inflight s = [q] \<and> speechQueue s = [] \<and> isProcessingRef s"
  by (cases "inflight s"; cases "tl (inflight s)") (auto simp: exclusive_def split: if_splits)

lemma exclusive_utterance:
  "exclusive s \<Longrightarrow> speechQueue s = u # us \<Longrightarrow> inflight s = [] \<and> us = []"
  by (auto simp: exclusive_def split: if_splits)

lemma rec_onresult_exclusive: "exclusive s \<Longrightarrow> exclusive (rec_onresult r results s)"
proof (cases "isProcessingRef s")
  case True
  assume "exclusive s"
  with True show ?thesis by (simp add: rec_onresult_def)
next
  case False
  assume "exclusive s"
  from exclusive_idle[OF this False] False show ?thesis
    by (simp add: rec_onresult_def exclusive_def issue_def addLog_def Let_def
        split: list.splits)
qed

lemma fire_exclusive:
  assumes "exclusive s" "fire e s = Some s'"
  shows "exclusive s'"
proof (cases e)
  case RecStart
  with assms show ?thesis
    by (auto simp: rec_onstart_def exclusive_def addLog_def setStatus_def)
next
  case (RecError err)
  with assms show ?thesis
    by (auto simp: rec_onerror_def exclusive_def addLog_def setStatus_def)
next
  case (RecEnd r)
  with assms show ?thesis by (auto simp: rec_onend_def exclusive_def issue_def)
next
  case (RecResult r results)
  with assms rec_onresult_exclusive show ?thesis by auto
next
  case (Settled r q c voices)
  with assms have q: "q \<in> set (inflight s)"
    and s': "s' = settled r c voices (s\<lparr>inflight := remove1 q (inflight s)\<rparr>)"
    by (auto split: if_splits)
  from exclusive_request[OF assms(1) q] show ?thesis
    unfolding s' by (intro settled_exclusive) simp_all
next
  case (UtteranceEnd r)
  with assms obtain u us where q: "speechQueue s = u # us"
    and s': "s' = utterance_onend r (s\<lparr>speechQueue := us\<rparr>)"
    by (auto split: list.splits)
  from exclusive_utterance[OF assms(1) q] show ?thesis
    unfolding s' by (simp add: utterance_onend_def resume_def issue_def exclusive_def)
next
  case (UtteranceError r)
  with assms obtain u us where q: "speechQueue s = u # us"
    and s': "s' = utterance_onerror r (s\<lparr>speechQueue := us\<rparr>)"
    by (auto split: list.splits)
  from exclusive_utterance[OF assms(1) q] show ?thesis
    unfolding s' by (simp add: utterance_onerror_def resume_def issue_def exclusive_def)
qed

lemma fireAll_exclusive: "exclusive s \<Longrightarrow> fireAll es s = Some s' \<Longrightarrow> exclusive s'"
proof (induction es arbitrary: s)
  case Nil
  then show ?case by simp
next
  case (Cons e es)
  then show ?case by (auto split: option.splits dest: fire_exclusive)
qed

text \<open>
  Claim C7. A result event that arrives while the processing flag is set leaves the whole
  state as it was: no request is issued, the flag and the log are unchanged. Over every run
  of events of the turn-based pipeline that starts with no outstanding work, there is at
  most one request in flight or utterance queued at any time, and none unless the flag is
  set: no request or synthesis starts while another is outstanding.
\<close>

theorem result_ignored_while_processing:
  "(isProcessingRef s \<longrightarrow> rec_onresult r results s = s) \<and>
   (exclusive s \<and> fireAll es s = Some s' \<longrightarrow> exclusive s')"
  using fireAll_exclusive by (auto simp: rec_onresult_def)

lemma turnSession_eq:
  "turnSession =
     \<lparr> status = CONNECTED,
       logs = [\<lparr>sender = system, message = ''Initializing adapter for Groq (llama-3)...''\<rparr>,
               \<lparr>sender = system, message = ''James Online. Listening...''\<rparr>],
       outputAnalyser = Some 2,
       inputContextRef = None, outputContextRef = None, streamRef = None,
       processorRef = None, nextStartTimeRef = 0, sourcesRef = [],
       activeSessionRef = None, recognitionRef = Some jamesRec, isProcessingRef = False,
       currentInputRef = [], currentOutputRef = [],
       hasSpeechSynthesis = True, speechQueue = [], inflight = [],
       calls = [RecognitionStart 0], nextHandle = 3 \<rparr>"
  by (simp add: turnSession_def connectOpenAI_def openaiBegin_def recognitionStarted_def
      rec_onstart_def fresh_def initial_def addLog_def setStatus_def issue_def jamesRec_def
      mkRecognition_def groqConfig_def startsWith_def Let_def)

lemma trim_statusReport: "trim ''status report'' = ''status report''"
  by (simp add: trim_def isWhiteSpace_def)

lemma thinking_eq:
  "thinking =
     turnSession\<lparr>logs := logs turnSession @ [\<lparr>sender = user, message = ''status report''\<rparr>],
       isProcessingRef := True,
       calls := [RecognitionStart 0, RecognitionStop 0],
       inflight := [completionRequest jamesRec ''status report'']\<rparr>"
  by (simp add: thinking_def rec_onresult_def statusReport_def trim_statusReport Let_def
      turnSession_eq addLog_def issue_def)
     (simp add: jamesRec_def mkRecognition_def)

lemma oneTurn_run:
  "fireAll oneTurn turnSession =
     Some (turnSession\<lparr>logs := logs turnSession @
                         [\<lparr>sender = user, message = ''status report''\<rparr>,
                          \<lparr>sender = ai, message = ''All systems nominal''\<rparr>],
             calls := [RecognitionStart 0, RecognitionStop 0, RecognitionStart 0]\<rparr>)"
proof -
  have 1: "fire (RecResult jamesRec statusReport) turnSession = Some thinking"
    by (simp add: thinking_def)
  have 2: "fire (RecEnd jamesRec) thinking = Some thinking"
    by (simp add: rec_onend_def thinking_eq)
  have 3: "fire (RecResult jamesRec statusReport) thinking = Some thinking"
    by (simp add: rec_onresult_def thinking_eq)
  have 4: "fire (Settled jamesRec (completionRequest jamesRec ''status report'') nominal
             [samantha, luciana]) thinking =
           Some (thinking\<lparr>logs := logs thinking @ [\<lparr>sender = ai, message = ''All systems nominal''\<rparr>],
                   inflight := [],
                   speechQueue := [mkUtterance ''All systems nominal'' [samantha, luciana]]\<rparr>)"
    by (simp add: thinking_eq nominal_def addLog_def Let_def turnSession_eq)
  have 5: "fire (UtteranceEnd jamesRec)
             (thinking\<lparr>logs := logs thinking @ [\<lparr>sender = ai, message = ''All systems nominal''\<rparr>],
                   inflight := [],
                   speechQueue := [mkUtterance ''All systems nominal'' [samantha, luciana]]\<rparr>) =
           Some (turnSession\<lparr>logs := logs turnSession @
                         [\<lparr>sender = user, message = ''status report''\<rparr>,
                          \<lparr>sender = ai, message = ''All systems nominal''\<rparr>],
             calls := [RecognitionStart 0, RecognitionStop 0, RecognitionStart 0]\<rparr>)"
    by (simp add: thinking_eq utterance_onend_def resume_def issue_def turnSession_eq)
       (simp add: jamesRec_def mkRecognition_def)
  show ?thesis
    unfolding oneTurn_def by (simp only: fireAll.simps 1 2 3 4 5 option.case)
qed

theorem result_ignored_while_processing_witness:
  "isProcessingRef thinking \<and>
   rec_onresult jamesRec statusReport thinking = thinking \<and>
   exclusive turnSession \<and>
   fireAll oneTurn turnSession =
     Some (turnSession\<lparr>logs := logs turnSession @
                         [\<lparr>sender = user, message = ''status report''\<rparr>,
                          \<lparr>sender = ai, message = ''All systems nominal''\<rparr>],
             calls := [RecognitionStart 0, RecognitionStop 0, RecognitionStart 0]\<rparr>) \<and>
   exclusive (turnSession\<lparr>logs := logs turnSession @
                         [\<lparr>sender = user, message = ''status report''\<rparr>,
                          \<lparr>sender = ai, message = ''All systems nominal''\<rparr>],
             calls := [RecognitionStart 0, RecognitionStop 0, RecognitionStart 0]\<rparr>)"
proof -
  have p: "isProcessingRef thinking" by (simp add: thinking_eq)
  have x: "exclusive turnSession" by (simp add: exclusive_def turnSession_eq)
  from result_ignored_while_processing[where s = turnSession and es = oneTurn and s' =
         "turnSession\<lparr>logs := logs turnSession @
                         [\<lparr>sender = user, message = ''status report''\<rparr>,
                          \<lparr>sender = ai, message = ''All systems nominal''\<rparr>],
             calls := [RecognitionStart 0, RecognitionStop 0, RecognitionStart 0]\<rparr>"]
       result_ignored_while_processing[where s = thinking and r = jamesRec
         and results = statusReport]
       p x oneTurn_run
  show ?thesis by simp
qed

section \<open>Completion failure\<close>

lemma llmCatch_eq:
  "llmCatch r msg s =
     s\<lparr>logs := logs s @ [\<lparr>sender = system, message = ''LLM Error: '' @ msg\<rparr>],
       isProcessingRef := False,
       calls := calls s @ [RecognitionStart (recId r)]\<rparr>"
  by (simp add: llmCatch_def issue_def addLog_def)

lemma settled_failure:
  assumes "\<forall>x. c \<noteq> Success (Field x)"
  shows "settled r c voices s = llmCatch r (failureMessage c) s"
proof (cases c)
  case (Rejected e)
  then show ?thesis by (simp add: templated_def)
next
  case (Failure b)
  then show ?thesis
  proof (cases b)
    case (Unreadable e)
    with Failure show ?thesis by (simp add: templated_def)
  next
    case (Field m)
    with Failure show ?thesis by (cases m) simp_all
  qed
next
  case (Success b)
  with assms show ?thesis by (cases b) (simp_all add: templated_def)
qed

text \<open>
  Claim C8. Every completion that does not give a readable successful response (the fetch
  rejects, the response is not ok, or a body cannot be read) ends in the \<^verbatim>\<open>catch\<close> block:
  exactly one system entry is appended, \<open>LLM Error: \<close> followed by the message of the
  failure, the processing flag is cleared, \<^verbatim>\<open>recognition.start()\<close> is called, and
  nothing else changes, the status included. The message is, case by case: for a response
  that is not ok, the upstream \<^verbatim>\<open>error.message\<close> when the body has one that is not
  empty and \<open>API Request Failed\<close> when it has none or an empty one; for a rejected
  \<^verbatim>\<open>fetch\<close> and for a body that cannot be read, the message of the thrown value, and
  \<open>undefined\<close> when the value has none.
\<close>

theorem completion_failure:
  assumes "\<forall>x. c \<noteq> Success (Field x)"
  shows "settled r c voices s =
           s\<lparr>logs := logs s @
                 [\<lparr>sender = system, message = ''LLM Error: '' @ failureMessage c\<rparr>],
             isProcessingRef := False,
             calls := calls s @ [RecognitionStart (recId r)]\<rparr> \<and>
         status (settled r c voices s) = status s \<and>
         (\<forall>m. c = Failure (Field (Some m)) \<and> truthy m \<longrightarrow> failureMessage c = m) \<and>
         (c = Failure (Field None) \<or> c = Failure (Field (Some [])) \<longrightarrow>
            failureMessage c = ''API Request Failed'') \<and>
         (\<forall>e m. errMessage e = Some m \<and>
                 (c = Rejected e \<or> c = Failure (Unreadable e) \<or> c = Success (Unreadable e)) \<longrightarrow>
                 failureMessage c = m) \<and>
         (\<forall>e. errMessage e = None \<and>
                 (c = Rejected e \<or> c = Failure (Unreadable e) \<or> c = Success (Unreadable e)) \<longrightarrow>
                 failureMessage c = ''undefined'')"
proof -
  have 1: "settled r c voices s =
           s\<lparr>logs := logs s @
                 [\<lparr>sender = system, message = ''LLM Error: '' @ failureMessage c\<rparr>],
             isProcessingRef := False,
             calls := calls s @ [RecognitionStart (recId r)]\<rparr>"
    using settled_failure[OF assms, of r voices s] unfolding llmCatch_eq .
  have 2: "status (settled r c voices s) = status s"
    unfolding 1 by simp
  have 3: "\<forall>m. c = Failure (Field (Some m)) \<and> truthy m \<longrightarrow> failureMessage c = m"
    by auto
  have 4: "\<forall>e m. errMessage e = Some m \<and>
                 (c = Rejected e \<or> c = Failure (Unreadable e) \<or> c = Success (Unreadable e)) \<longrightarrow>
                 failureMessage c = m"
    by auto
  have 5: "c = Failure (Field None) \<or> c = Failure (Field (Some [])) \<longrightarrow>
            failureMessage c = ''API Request Failed''"
    by auto
  have 6: "\<forall>e. errMessage e = None \<and>
                 (c = Rejected e \<or> c = Failure (Unreadable e) \<or> c = Success (Unreadable e)) \<longrightarrow>
                 failureMessage c = ''undefined''"
    by auto
  from 1 2 3 4 5 6 show ?thesis by blast
qed

theorem completion_failure_witness:
  "isProcessingRef thinking \<and>
   settled jamesRec rateLimited [] thinking =
     thinking\<lparr>logs := logs thinking @
                 [\<lparr>sender = system, message = ''LLM Error: rate limit exceeded''\<rparr>],
       isProcessingRef := False,
       calls := calls thinking @ [RecognitionStart 0]\<rparr> \<and>
   status (settled jamesRec rateLimited [] thinking) = status thinking \<and>
   settled jamesRec fetchFailed [] thinking =
     thinking\<lparr>logs := logs thinking @
                 [\<lparr>sender = system, message = ''LLM Error: Failed to fetch''\<rparr>],
       isProcessingRef := False,
       calls := calls thinking @ [RecognitionStart 0]\<rparr> \<and>
   settled jamesRec noUpstreamMessage [] thinking =
     thinking\<lparr>logs := logs thinking @
                 [\<lparr>sender = system, message = ''LLM Error: API Request Failed''\<rparr>],
       isProcessingRef := False,
       calls := calls thinking @ [RecognitionStart 0]\<rparr> \<and>
   settled jamesRec badBody [] thinking =
     thinking\<lparr>logs := logs thinking @
                 [\<lparr>sender = system, message = ''LLM Error: undefined''\<rparr>],
       isProcessingRef := False,
       calls := calls thinking @ [RecognitionStart 0]\<rparr>"
proof -
  have h: "\<forall>x. rateLimited \<noteq> Success (Field x)" "\<forall>x. fetchFailed \<noteq> Success (Field x)"
          "\<forall>x. noUpstreamMessage \<noteq> Success (Field x)" "\<forall>x. badBody \<noteq> Success (Field x)"
    by (simp_all add: rateLimited_def fetchFailed_def noUpstreamMessage_def badBody_def)
  have f: "failureMessage rateLimited = ''rate limit exceeded''"
          "failureMessage fetchFailed = ''Failed to fetch''"
          "failureMessage noUpstreamMessage = ''API Request Failed''"
          "failureMessage badBody = ''undefined''"
    by (simp_all add: rateLimited_def fetchFailed_def noUpstreamMessage_def badBody_def)
  have i: "recId jamesRec = 0" by (simp add: jamesRec_def mkRecognition_def)
  have p: "isProcessingRef thinking" by (simp add: thinking_eq)
  note a = completion_failure[OF h(1), of jamesRec "[]" thinking, unfolded f i]
  note b = completion_failure[OF h(2), of jamesRec "[]" thinking, unfolded f i]
  note c = completion_failure[OF h(3), of jamesRec "[]" thinking, unfolded f i]
  note d = completion_failure[OF h(4), of jamesRec "[]" thinking, unfolded f i]
  from p a[THEN conjunct1] a[THEN conjunct2, THEN conjunct1]
    b[THEN conjunct1] c[THEN conjunct1] d[THEN conjunct1]
  show ?thesis by simp
qed

section \<open>Voice selection\<close>

lemma find_None_iff2: "find P xs = None \<longleftrightarrow> \<not> (\<exists>x \<in> set xs. P x)"
  by (auto simp: find_None_iff)

lemma isPtBR_isPortuguese: "isPtBR v \<Longrightarrow> isPortuguese v"
  by (simp add: isPtBR_def isPortuguese_def startsWith_def)

text \<open>
  Claim C9. The first voice that is a Microsoft Daniel voice of the \<open>pt\<close> family is
  selected; failing any, the first voice of the family whose lower-cased name contains
  \<open>male\<close> or \<open>masculino\<close>; failing any, the first voice whose language is exactly
  \<open>pt-BR\<close>; failing any, the first voice of the family; and when no voice is of the family
  nothing is selected and the utterance's voice stays unset. The utterance carries exactly
  the selected voice.
\<close>

theorem voice_cascade:
  "((\<exists>v \<in> set voices. isDaniel v) \<longrightarrow> selectVoice voices = find isDaniel voices) \<and>
   (\<not> (\<exists>v \<in> set voices. isDaniel v) \<and> (\<exists>v \<in> set voices. isPortugueseMale v) \<longrightarrow>
      selectVoice voices = find isPortugueseMale voices) \<and>
   (\<not> (\<exists>v \<in> set voices. isDaniel v) \<and> \<not> (\<exists>v \<in> set voices. isPortugueseMale v) \<and>
    (\<exists>v \<in> set voices. isPtBR v) \<longrightarrow> selectVoice voices = find isPtBR voices) \<and>
   (\<not> (\<exists>v \<in> set voices. isDaniel v) \<and> \<not> (\<exists>v \<in> set voices. isPortugueseMale v) \<and>
    \<not> (\<exists>v \<in> set voices. isPtBR v) \<and> (\<exists>v \<in> set voices. isPortuguese v) \<longrightarrow>
      selectVoice voices = find isPortuguese voices) \<and>
   (\<not> (\<exists>v \<in> set voices. isPortuguese v) \<longrightarrow>
      selectVoice voices = None \<and> voice (mkUtterance aiText voices) = None) \<and>
   voice (mkUtterance aiText voices) = selectVoice voices"
proof -
  have fam: "\<not> (\<exists>v \<in> set voices. isPortuguese v) \<Longrightarrow>
     find isDaniel voices = None \<and> find isPortugueseMale voices = None \<and>
     find isPtBR voices = None \<and> find isPortuguese voices = None"
    using isPtBR_isPortuguese
    by (auto simp: find_None_iff isDaniel_def isPortugueseMale_def isPortuguese_def)
  show ?thesis
    using fam
    by (auto simp: selectVoice_def mkUtterance_def Let_def find_None_iff2)
qed

lemma voice_tests:
  "isDaniel daniel" "\<not> isDaniel samantha" "\<not> isDaniel joana" "\<not> isDaniel luciana"
  "\<not> isDaniel felipe"
  "isPortugueseMale felipe" "\<not> isPortugueseMale samantha" "\<not> isPortugueseMale joana"
  "\<not> isPortugueseMale luciana"
  "isPtBR luciana" "\<not> isPtBR samantha" "\<not> isPtBR joana"
  "isPortuguese joana" "\<not> isPortuguese samantha"
  by code_simp+

text \<open>
  The second test looks for the substring \<open>male\<close>, which \<open>female\<close> contains: a voice
  named as female passes it.
\<close>

lemma female_passes_male_test:
  "isPortugueseMale maria" "selectVoice [samantha, luciana, maria] = Some maria"
  by code_simp+

theorem voice_cascade_witness:
  "selectVoice [samantha, joana, luciana, felipe, daniel] = Some daniel \<and>
   selectVoice [samantha, joana, luciana, felipe] = Some felipe \<and>
   selectVoice [samantha, joana, luciana] = Some luciana \<and>
   selectVoice [samantha, joana] = Some joana \<and>
   selectVoice [samantha] = None \<and>
   voice (mkUtterance ''All systems nominal'' [samantha]) = None"
  using voice_cascade[of "[samantha, joana, luciana, felipe, daniel]" "[]"]
        voice_cascade[of "[samantha, joana, luciana, felipe]" "[]"]
        voice_cascade[of "[samantha, joana, luciana]" "[]"]
        voice_cascade[of "[samantha, joana]" "[]"]
        voice_cascade[of "[samantha]" "''All systems nominal''"]
  by (simp add: voice_tests)

section \<open>Completion endpoint\<close>

lemma connectOpenAI_recognition:
  assumes "os \<noteq> NoSpeechRecognition" "\<forall>e. os \<noteq> FailRecognitionCtor e" "hasSpeechSynthesis s"
  shows "recognitionRef (connectOpenAI config os s) = Some (mkRecognition config (nextHandle s))"
  using assms
  by (cases os)
     (simp_all add: connectOpenAI_def openaiBegin_def recognitionStarted_def openaiCatch_def
        fresh_def addLog_def setStatus_def issue_def Let_def)

lemma rec_onresult_inflight:
  "inflight (rec_onresult r results s) = inflight s \<or>
   (\<exists>text. inflight (rec_onresult r results s) = inflight s @ [completionRequest r text])"
  by (auto simp: rec_onresult_def issue_def addLog_def Let_def split: list.splits)

lemma rec_onresult_final:
  assumes "\<not> isProcessingRef s" "truthy (trim text)"
  shows "inflight (rec_onresult r [\<lparr>alternatives = [text], isFinal = True\<rparr>] s) =
           inflight s @ [completionRequest r text]"
  using assms by (simp add: rec_onresult_def issue_def addLog_def Let_def)

lemma request_endpoint:
  "url (completionRequest (mkRecognition config n) text) = endpointFor (apiKey config)"
  "authorization (completionRequest (mkRecognition config n) text) = ''Bearer '' @ apiKey config"
  by (simp_all add: completionRequest_def mkRecognition_def endpointFor_def)

text \<open>
  Claim C10. After \<open>connect\<close> has resolved a non-empty key \<open>k\<close> for a provider other than
  \<open>gemini\<close> and installed a recognition object, every request that the \<open>onresult\<close> handler
  of that object issues goes to the Groq endpoint when \<open>k\<close> starts with \<open>gsk_\<close> and to the
  OpenAI endpoint otherwise, and carries \<open>k\<close> as its bearer token; a final result with a
  transcript that is not blank, arriving while nothing is being processed, does issue one.
\<close>

theorem completion_endpoint:
  assumes "resolveKey config envKey = Some k" and "truthy k"
      and "provider config \<noteq> ''gemini''" and "hasSpeechSynthesis s"
      and "os \<noteq> NoSpeechRecognition" and "\<forall>e. os \<noteq> FailRecognitionCtor e"
  shows "\<exists>r. recognitionRef (connect config envKey gs os s) = Some r \<and>
           (\<forall>results s'.
              inflight (rec_onresult r results s') = inflight s' \<or>
              (\<exists>text. inflight (rec_onresult r results s') =
                        inflight s' @ [completionRequest r text])) \<and>
           (\<forall>text s'. \<not> isProcessingRef s' \<and> truthy (trim text) \<longrightarrow>
              inflight (rec_onresult r [\<lparr>alternatives = [text], isFinal = True\<rparr>] s') =
                inflight s' @ [completionRequest r text]) \<and>
           (\<forall>text. url (completionRequest r text) = endpointFor k \<and>
                   authorization (completionRequest r text) = ''Bearer '' @ k)"
proof -
  let ?r = "mkRecognition (config\<lparr>apiKey := k\<rparr>) (nextHandle s)"
  have "connect config envKey gs os s = connectOpenAI (config\<lparr>apiKey := k\<rparr>) os s"
    using assms(1-3) by (simp add: connect_def Let_def)
  then have "recognitionRef (connect config envKey gs os s) = Some ?r"
    using connectOpenAI_recognition[OF assms(5,6,4)] by simp
  moreover have "\<forall>text. url (completionRequest ?r text) = endpointFor k \<and>
                   authorization (completionRequest ?r text) = ''Bearer '' @ k"
    by (simp add: request_endpoint)
  ultimately show ?thesis
    using rec_onresult_inflight[of ?r] rec_onresult_final[of _ _ ?r] by blast
qed

theorem completion_endpoint_witness:
  "recognitionRef (connect groqConfig None GeminiReady OpenAIReady (initial True)) = Some jamesRec \<and>
   inflight thinking = [completionRequest jamesRec ''status report''] \<and>
   url (completionRequest jamesRec ''status report'') =
     ''https://api.groq.com/openai/v1/chat/completions'' \<and>
   authorization (completionRequest jamesRec ''status report'') = ''Bearer gsk_abc'' \<and>
   (\<exists>r. recognitionRef (connect openaiConfig (Some ''sk-env'') GeminiReady OpenAIReady (initial True))
          = Some r \<and>
        url (completionRequest r ''status report'') = ''https://api.openai.com/v1/chat/completions'' \<and>
        authorization (completionRequest r ''status report'') = ''Bearer sk-env'')"
proof -
  have g: "resolveKey groqConfig None = Some ''gsk_abc''" "provider groqConfig \<noteq> ''gemini''"
    by (simp_all add: resolveKey_def groqConfig_def)
  have o: "resolveKey openaiConfig (Some ''sk-env'') = Some ''sk-env''"
          "provider openaiConfig \<noteq> ''gemini''"
    by (simp_all add: resolveKey_def openaiConfig_def)
  have i: "hasSpeechSynthesis (initial True)" by (simp add: initial_def)
  have e: "endpointFor ''gsk_abc'' = ''https://api.groq.com/openai/v1/chat/completions''"
          "endpointFor ''sk-env'' = ''https://api.openai.com/v1/chat/completions''"
    by (simp_all add: endpointFor_def startsWith_def)
  have j: "recognitionRef (connect groqConfig None GeminiReady OpenAIReady (initial True)) =
             Some jamesRec"
    using g by (simp add: connect_def Let_def connectOpenAI_recognition i jamesRec_def
        groqConfig_def initial_def)
  from completion_endpoint[OF g(1) _ g(2) i, of OpenAIReady GeminiReady] j
  have 1: "url (completionRequest jamesRec ''status report'') =
             ''https://api.groq.com/openai/v1/chat/completions''"
          "authorization (completionRequest jamesRec ''status report'') = ''Bearer gsk_abc''"
    by (auto simp: e)
  from completion_endpoint[OF o(1) _ o(2) i, of OpenAIReady GeminiReady]
  have 2: "\<exists>r. recognitionRef (connect openaiConfig (Some ''sk-env'') GeminiReady OpenAIReady
                 (initial True)) = Some r \<and>
        url (completionRequest r ''status report'') = ''https://api.openai.com/v1/chat/completions'' \<and>
        authorization (completionRequest r ''status report'') = ''Bearer sk-env''"
    by (auto simp: e)
  have 3: "inflight thinking = [completionRequest jamesRec ''status report'']"
    by (simp add: thinking_eq)
  from j 1 2 3 show ?thesis by blast
qed

end
